theory Spec2Isabelle
  imports Complex_Main
begin

section \<open>Python values and strings\<close>

text \<open>
  The program is \<^verbatim>\<open>src/data_processor.py\<close>: three functions,
  \<^verbatim>\<open>parse_german_number\<close>, \<^verbatim>\<open>clean_smard_df\<close> and \<^verbatim>\<open>run_pipeline\<close>, written
  over pandas. A Python string is a sequence of Unicode code points, here a list of
  natural numbers; \<open>str\<close> writes an ASCII literal as such a list and \<open>chr\<close> one
  character. A float is one of the three special values or \<open>Finite q\<close>, the double
  nearest to the rational \<open>q\<close>: rounding inside the range of a double is not modelled,
  leaving that range is.
\<close>

type_synonym pystr = "nat list"

definition chr :: "char \<Rightarrow> nat" where
  "chr c = of_char c"

definition str :: "string \<Rightarrow> pystr" where
  "str s = map chr s"

datatype error = ValueError | KeyError | AttributeError | OverflowError

datatype pyfloat = Finite rat | PosInf | NegInf | NaN

datatype timestamp =
  Timestamp (ts_year: nat) (ts_month: nat) (ts_day: nat) (ts_hour: nat) (ts_minute: nat)

datatype pyval =
    PyNone
  | PyBool bool
  | PyInt int
  | PyFloat pyfloat
  | PyStr pystr
  | PyNaT
  | PyTimestamp timestamp

text \<open>The ASCII digits, and the number a string of them spells.\<close>

definition is_digit :: "nat \<Rightarrow> bool" where
  "is_digit c = (48 \<le> c \<and> c \<le> 57)"

definition digit_val :: "nat \<Rightarrow> nat" where
  "digit_val c = c - 48"

definition digits_value :: "pystr \<Rightarrow> nat" where
  "digits_value ds = foldl (\<lambda>a c. 10 * a + digit_val c) 0 ds"

text \<open>
  The decimal digits of Unicode 14.0 (Python 3.11) stand in runs of ten, from the digit
  zero to the digit nine; these are the code points of the zeros.
\<close>

definition decimal_zeros :: "nat list" where
  "decimal_zeros =
     [0x30, 0x660, 0x6F0, 0x7C0, 0x966, 0x9E6, 0xA66, 0xAE6, 0xB66, 0xBE6, 0xC66, 0xCE6,
      0xD66, 0xDE6, 0xE50, 0xED0, 0xF20, 0x1040, 0x1090, 0x17E0, 0x1810, 0x1946, 0x19D0,
      0x1A80, 0x1A90, 0x1B50, 0x1BB0, 0x1C40, 0x1C50, 0xA620, 0xA8D0, 0xA900, 0xA9D0,
      0xA9F0, 0xAA50, 0xABF0, 0xFF10, 0x104A0, 0x10D30, 0x11066, 0x110F0, 0x11136,
      0x111D0, 0x112F0, 0x11450, 0x114D0, 0x11650, 0x116C0, 0x11730, 0x118E0, 0x11950,
      0x11C50, 0x11D50, 0x11DA0, 0x16A60, 0x16AC0, 0x16B50, 0x1D7CE, 0x1D7D8, 0x1D7E2,
      0x1D7EC, 0x1D7F6, 0x1E140, 0x1E2F0, 0x1E950, 0x1FBF0]"

definition decimal_value :: "nat \<Rightarrow> nat option" where
  "decimal_value c =
     (case find (\<lambda>z. z \<le> c \<and> c < z + 10) decimal_zeros of
        Some z \<Rightarrow> Some (c - z)
      | None \<Rightarrow> None)"

text \<open>
  The code points Python counts as whitespace (\<^verbatim>\<open>str.isspace\<close>): \<^verbatim>\<open>strip()\<close> removes
  them, and \<^verbatim>\<open>\s\<close> in a regular expression matches them.
\<close>

definition is_space :: "nat \<Rightarrow> bool" where
  "is_space c =
     (c \<in> set [0x09, 0x0A, 0x0B, 0x0C, 0x0D, 0x1C, 0x1D, 0x1E, 0x1F, 0x20, 0x85, 0xA0,
                0x1680, 0x2000, 0x2001, 0x2002, 0x2003, 0x2004, 0x2005, 0x2006, 0x2007,
                0x2008, 0x2009, 0x200A, 0x2028, 0x2029, 0x202F, 0x205F, 0x3000])"

text \<open>The whitespace of C's \<^verbatim>\<open>isspace\<close>, which \<^verbatim>\<open>float\<close> strips from an ASCII text.\<close>

definition is_c_space :: "nat \<Rightarrow> bool" where
  "is_c_space c = (c \<in> set [0x09, 0x0A, 0x0B, 0x0C, 0x0D, 0x20])"

definition strip_with :: "(nat \<Rightarrow> bool) \<Rightarrow> pystr \<Rightarrow> pystr" where
  "strip_with space s = rev (dropWhile space (rev (dropWhile space s)))"

text \<open>\<^verbatim>\<open>s.strip()\<close>\<close>

definition py_strip :: "pystr \<Rightarrow> pystr" where
  "py_strip s = strip_with is_space s"

text \<open>
  \<^verbatim>\<open>s.lower()\<close>. It is exact on ASCII and on the Kelvin sign U+212A, which becomes
  \<^verbatim>\<open>k\<close>. Python lower-cases every other code point outside ASCII to code points
  outside ASCII, and here it stands as it is; the one exception, U+0130, becomes \<^verbatim>\<open>i\<close>
  followed by U+0307. The program lower-cases a header only to look for one of the ASCII
  words \<^verbatim>\<open>date\<close>, \<^verbatim>\<open>timestamp\<close>, \<^verbatim>\<open>residual\<close>, \<^verbatim>\<open>grid_load\<close> and \<^verbatim>\<open>grid load\<close> in
  it, and the date parser to compare with a month's name, \<^verbatim>\<open>am\<close> or \<^verbatim>\<open>pm\<close>. None of
  these ends in \<^verbatim>\<open>i\<close>, so an \<^verbatim>\<open>i\<close> before U+0307 completes none of them, and each of
  these tests has the answer it has in Python.
\<close>

definition lower_cp :: "nat \<Rightarrow> nat" where
  "lower_cp c = (if 65 \<le> c \<and> c \<le> 90 then c + 32 else if c = 0x212A then 0x6B else c)"

definition py_lower :: "pystr \<Rightarrow> pystr" where
  "py_lower s = map lower_cp s"

text \<open>\<^verbatim>\<open>s.replace(old, new)\<close> for a pattern \<^verbatim>\<open>old\<close> of one character.\<close>

definition py_replace :: "nat \<Rightarrow> pystr \<Rightarrow> pystr \<Rightarrow> pystr" where
  "py_replace old new s = concat (map (\<lambda>c. if c = old then new else [c]) s)"

text \<open>\<^verbatim>\<open>s.split(sep)\<close> for a separator of one character: never the empty list.\<close>

fun py_split :: "nat \<Rightarrow> pystr \<Rightarrow> pystr list" where
  "py_split sep [] = [[]]"
| "py_split sep (c # cs) =
     (if c = sep then [] # py_split sep cs
      else (case py_split sep cs of
              [] \<Rightarrow> [[c]]
            | p # ps \<Rightarrow> (c # p) # ps))"

fun starts_with :: "pystr \<Rightarrow> pystr \<Rightarrow> bool" where
  "starts_with [] s = True"
| "starts_with (p # ps) [] = False"
| "starts_with (p # ps) (c # cs) = (p = c \<and> starts_with ps cs)"

text \<open>\<^verbatim>\<open>needle in hay\<close> on strings: \<^verbatim>\<open>needle\<close> occurs as a contiguous slice.\<close>

fun py_in :: "pystr \<Rightarrow> pystr \<Rightarrow> bool" where
  "py_in needle [] = (needle = [])"
| "py_in needle (c # cs) = (starts_with needle (c # cs) \<or> py_in needle cs)"

text \<open>\<^verbatim>\<open>sep.join(parts)\<close>\<close>

fun py_join :: "pystr \<Rightarrow> pystr list \<Rightarrow> pystr" where
  "py_join sep [] = []"
| "py_join sep [p] = p"
| "py_join sep (p # q # ps) = p @ sep @ py_join sep (q # ps)"

section \<open>The built-in \<^verbatim>\<open>float\<close>\<close>

text \<open>
  \<^verbatim>\<open>float(x)\<close> of an \<^verbatim>\<open>int\<close> rounds to the nearest double, ties to even, and raises
  \<^verbatim>\<open>OverflowError\<close> when the result would leave the range of a double: from
  \<open>2 ^ 1024 - 2 ^ 970\<close> on, halfway between the largest double and \<open>2 ^ 1024\<close>. The
  same bound decides where \<^verbatim>\<open>float\<close> of a text gives an infinity.
\<close>

definition double_limit :: int where
  "double_limit = 2 ^ 1024 - 2 ^ 970"

definition float_of_int :: "int \<Rightarrow> error + pyfloat" where
  "float_of_int i =
     (if double_limit \<le> \<bar>i\<bar> then Inl OverflowError else Inr (Finite (of_int i)))"

definition to_double :: "rat \<Rightarrow> pyfloat" where
  "to_double q =
     (if of_int double_limit \<le> q then PosInf
      else if q \<le> - of_int double_limit then NegInf
      else Finite q)"

text \<open>
  \<^verbatim>\<open>float(s)\<close> of a string. A string with a code point outside ASCII is first rewritten
  to ASCII: a code point below 127 stays, whitespace outside ASCII becomes a space, a
  decimal digit outside ASCII becomes the ASCII digit of its value, and at any other
  code point the text is cut and ends in a question mark. A string all in ASCII is taken
  as it is. Then C whitespace is stripped at both ends; single underscores may stand
  between digits; and what is left is an optional sign and either a decimal number
  (digits, an optional point, digits, an optional exponent, with a digit on at least one
  side of the point) or one of \<^verbatim>\<open>inf\<close>, \<^verbatim>\<open>infinity\<close>, \<^verbatim>\<open>nan\<close> in any case. Anything
  else raises \<^verbatim>\<open>ValueError\<close>.
\<close>

fun to_ascii :: "pystr \<Rightarrow> pystr" where
  "to_ascii [] = []"
| "to_ascii (c # cs) =
     (if c < 127 then c # to_ascii cs
      else if is_space c then chr CHR '' '' # to_ascii cs
      else (case decimal_value c of
              Some d \<Rightarrow> (48 + d) # to_ascii cs
            | None \<Rightarrow> [chr CHR ''?'']))"

definition transform_decimal_and_space :: "pystr \<Rightarrow> pystr" where
  "transform_decimal_and_space s = (if list_all (\<lambda>c. c < 128) s then s else to_ascii s)"

fun strip_underscores :: "nat \<Rightarrow> pystr \<Rightarrow> pystr option" where
  "strip_underscores prev [] = (if prev = chr CHR ''_'' then None else Some [])"
| "strip_underscores prev (c # cs) =
     (if c = chr CHR ''_'' then
        (if is_digit prev then strip_underscores c cs else None)
      else if prev = chr CHR ''_'' \<and> \<not> is_digit c then None
      else map_option (Cons c) (strip_underscores c cs))"

definition split_sign :: "pystr \<Rightarrow> bool \<times> pystr" where
  "split_sign s =
     (case s of
        [] \<Rightarrow> (False, [])
      | c # cs \<Rightarrow> if c = chr CHR ''-'' then (True, cs)
                  else if c = chr CHR ''+'' then (False, cs)
                  else (False, s))"

definition parse_exponent :: "pystr \<Rightarrow> int option" where
  "parse_exponent s =
     (case s of
        [] \<Rightarrow> Some 0
      | c # cs \<Rightarrow>
          if c = chr CHR ''e'' \<or> c = chr CHR ''E'' then
            (case split_sign cs of (neg, ds) \<Rightarrow>
               if ds \<noteq> [] \<and> list_all is_digit ds
               then Some (if neg then - int (digits_value ds) else int (digits_value ds))
               else None)
          else None)"

definition scale10 :: "rat \<Rightarrow> int \<Rightarrow> rat" where
  "scale10 q e = (if 0 \<le> e then q * 10 ^ nat e else q / 10 ^ nat (- e))"

definition parse_decimal :: "pystr \<Rightarrow> rat option" where
  "parse_decimal s =
     (let ip = takeWhile is_digit s;
          r1 = dropWhile is_digit s;
          fp = (case r1 of [] \<Rightarrow> []
                | c # cs \<Rightarrow> if c = chr CHR ''.'' then takeWhile is_digit cs else []);
          r2 = (case r1 of [] \<Rightarrow> []
                | c # cs \<Rightarrow> if c = chr CHR ''.'' then dropWhile is_digit cs else r1)
      in if ip = [] \<and> fp = [] then None
         else (case parse_exponent r2 of
                 None \<Rightarrow> None
               | Some e \<Rightarrow>
                   Some (scale10 (of_nat (digits_value (ip @ fp))) (e - int (length fp)))))"

definition parse_inf_or_nan :: "bool \<Rightarrow> pystr \<Rightarrow> pyfloat option" where
  "parse_inf_or_nan neg s =
     (let l = py_lower s in
      if l = str ''inf'' \<or> l = str ''infinity'' then Some (if neg then NegInf else PosInf)
      else if l = str ''nan'' then Some NaN
      else None)"

definition float_from_string_inner :: "pystr \<Rightarrow> error + pyfloat" where
  "float_from_string_inner s =
     (case split_sign s of (neg, body) \<Rightarrow>
        (case parse_decimal body of
           Some q \<Rightarrow> Inr (to_double (if neg then - q else q))
         | None \<Rightarrow>
             (case parse_inf_or_nan neg body of
                Some v \<Rightarrow> Inr v
              | None \<Rightarrow> Inl ValueError)))"

definition py_float :: "pystr \<Rightarrow> error + pyfloat" where
  "py_float s =
     (let t = strip_with is_c_space (transform_decimal_and_space s) in
      if chr CHR ''_'' \<in> set t then
        (case strip_underscores 0 t of
           None \<Rightarrow> Inl ValueError
         | Some u \<Rightarrow> float_from_string_inner u)
      else float_from_string_inner t)"

section \<open>\<^verbatim>\<open>parse_german_number\<close>\<close>

text \<open>\<^verbatim>\<open>pd.isna(x)\<close> on a scalar: \<^verbatim>\<open>None\<close>, a float NaN and \<^verbatim>\<open>NaT\<close> are missing.\<close>

fun pd_isna :: "pyval \<Rightarrow> bool" where
  "pd_isna PyNone = True"
| "pd_isna (PyFloat f) = (f = NaN)"
| "pd_isna PyNaT = True"
| "pd_isna _ = False"

text \<open>
  Lines 7 to 23. The \<^verbatim>\<open>isinstance(x, (int, float))\<close> test accepts a \<^verbatim>\<open>bool\<close> as well;
  \<^verbatim>\<open>float(x)\<close> at line 15 stands outside the \<^verbatim>\<open>try\<close>, so its \<^verbatim>\<open>OverflowError\<close> leaves
  the function; the \<^verbatim>\<open>try\<close> at lines 19 to 22 catches \<^verbatim>\<open>ValueError\<close> and nothing else;
  a value of another type (here a timestamp) reaches the last \<^verbatim>\<open>return np.nan\<close>.
\<close>

definition parse_german_number :: "pyval \<Rightarrow> error + pyfloat" where
  "parse_german_number x =
     (if pd_isna x then Inr NaN
      else (case x of
              PyBool b \<Rightarrow> float_of_int (if b then 1 else 0)
            | PyInt i \<Rightarrow> float_of_int i
            | PyFloat f \<Rightarrow> Inr f
            | PyStr s \<Rightarrow>
                (let clean_str = py_replace (chr CHR '','') (str ''.'')
                                   (py_replace (chr CHR ''.'') [] s)
                 in case py_float clean_str of
                      Inr v \<Rightarrow> Inr v
                    | Inl ValueError \<Rightarrow> Inr NaN
                    | Inl e \<Rightarrow> Inl e)
            | _ \<Rightarrow> Inr NaN))"

text \<open>
  The specification's reading of a number in German format, for comparison with the code:
  an optional minus sign, groups of digits joined by the thousands separator \<^verbatim>\<open>.\<close>, and,
  after a decimal comma, the decimals. Its value is the integer the digits of the groups
  spell plus the decimals as a fraction.
\<close>

definition german_text :: "bool \<Rightarrow> pystr list \<Rightarrow> pystr option \<Rightarrow> pystr" where
  "german_text neg groups dec =
     (if neg then str ''-'' else []) @ py_join (str ''.'') groups @
     (case dec of None \<Rightarrow> [] | Some f \<Rightarrow> chr CHR '','' # f)"

definition german_value :: "bool \<Rightarrow> pystr list \<Rightarrow> pystr option \<Rightarrow> rat" where
  "german_value neg groups dec =
     (let v = of_nat (digits_value (concat groups)) +
              (case dec of None \<Rightarrow> 0
               | Some f \<Rightarrow> of_nat (digits_value f) / 10 ^ length f)
      in if neg then - v else v)"

definition german_digits :: "pystr list \<Rightarrow> pystr option \<Rightarrow> bool" where
  "german_digits groups dec =
     (concat groups \<noteq> [] \<and> list_all (list_all is_digit) groups \<and>
      (case dec of None \<Rightarrow> True | Some f \<Rightarrow> list_all is_digit f))"

section \<open>Timestamps: \<^verbatim>\<open>pd.to_datetime\<close>\<close>

text \<open>
  \<^verbatim>\<open>pd.to_datetime(col, format='%b %d, %Y %I:%M %p', errors='coerce')\<close> matches each
  string against the regular expression of the format, ignoring case, and the whole
  string must match:
  \<^verbatim>\<open>(jan|feb|...|dec)\s+(3[0-1]|[1-2]\d|0[1-9]|[1-9]| [1-9]),\s+(\d\d\d\d)\s+\<close>
  \<^verbatim>\<open>(1[0-2]|0[1-9]|[1-9]| [1-9]):([0-5]\d|\d)\s+(am|pm)\<close>,
  with the month names and \<^verbatim>\<open>am\<close>, \<^verbatim>\<open>pm\<close> of the English locale. There \<^verbatim>\<open>\s\<close> is
  any whitespace and \<^verbatim>\<open>\d\<close> any decimal digit of Unicode, while a class such as
  \<^verbatim>\<open>[1-9]\<close> holds ASCII digits only. Each alternative is followed by a character that
  is no digit, so the first alternative that matches is the one the match uses. The
  date must exist in the calendar. A value that does not match becomes \<^verbatim>\<open>NaT\<close>. The
  range limit of the 64-bit nanosecond representation, which depends on the version of
  pandas, is not modelled.
\<close>

definition month_names :: "pystr list" where
  "month_names = [str ''jan'', str ''feb'', str ''mar'', str ''apr'', str ''may'', str ''jun'',
                  str ''jul'', str ''aug'', str ''sep'', str ''oct'', str ''nov'', str ''dec'']"

fun find_pos :: "'a \<Rightarrow> 'a list \<Rightarrow> nat option" where
  "find_pos x [] = None"
| "find_pos x (y # ys) = (if x = y then Some 0 else map_option Suc (find_pos x ys))"

definition is_leap :: "nat \<Rightarrow> bool" where
  "is_leap y = (y mod 4 = 0 \<and> (y mod 100 \<noteq> 0 \<or> y mod 400 = 0))"

definition days_in_month :: "nat \<Rightarrow> nat \<Rightarrow> nat" where
  "days_in_month y m =
     (if m = 2 then (if is_leap y then 29 else 28)
      else if m \<in> set [4, 6, 9, 11] then 30
      else 31)"

text \<open>The regular expression's \<^verbatim>\<open>\s+\<close>: at least one whitespace character.\<close>

definition skip_spaces :: "pystr \<Rightarrow> pystr option" where
  "skip_spaces s =
     (case s of
        [] \<Rightarrow> None
      | c # cs \<Rightarrow> if is_space c then Some (dropWhile is_space cs) else None)"

definition is_decimal :: "nat \<Rightarrow> bool" where
  "is_decimal c = (decimal_value c \<noteq> None)"

definition decimal_of :: "nat \<Rightarrow> nat" where
  "decimal_of c = (case decimal_value c of Some d \<Rightarrow> d | None \<Rightarrow> 0)"

definition in_range :: "char \<Rightarrow> char \<Rightarrow> nat \<Rightarrow> bool" where
  "in_range lo hi c = (chr lo \<le> c \<and> c \<le> chr hi)"

text \<open>The day: \<^verbatim>\<open>3[0-1]|[1-2]\d|0[1-9]|[1-9]\<close>, and what follows it.\<close>

definition day_token :: "pystr \<Rightarrow> (nat \<times> pystr) option" where
  "day_token s =
     (case s of
        [] \<Rightarrow> None
      | c1 # r \<Rightarrow>
          (case r of
             [] \<Rightarrow> if in_range CHR ''1'' CHR ''9'' c1 then Some (digit_val c1, r) else None
           | c2 # rest \<Rightarrow>
               if (c1 = chr CHR ''3'' \<and> in_range CHR ''0'' CHR ''1'' c2) \<or>
                  (in_range CHR ''1'' CHR ''2'' c1 \<and> is_decimal c2) \<or>
                  (c1 = chr CHR ''0'' \<and> in_range CHR ''1'' CHR ''9'' c2)
               then Some (10 * digit_val c1 + decimal_of c2, rest)
               else if in_range CHR ''1'' CHR ''9'' c1 then Some (digit_val c1, r)
               else None))"

text \<open>The hour: \<^verbatim>\<open>1[0-2]|0[1-9]|[1-9]\<close>, and what follows it.\<close>

definition hour_token :: "pystr \<Rightarrow> (nat \<times> pystr) option" where
  "hour_token s =
     (case s of
        [] \<Rightarrow> None
      | c1 # r \<Rightarrow>
          (case r of
             [] \<Rightarrow> if in_range CHR ''1'' CHR ''9'' c1 then Some (digit_val c1, r) else None
           | c2 # rest \<Rightarrow>
               if (c1 = chr CHR ''1'' \<and> in_range CHR ''0'' CHR ''2'' c2) \<or>
                  (c1 = chr CHR ''0'' \<and> in_range CHR ''1'' CHR ''9'' c2)
               then Some (10 * digit_val c1 + digit_val c2, rest)
               else if in_range CHR ''1'' CHR ''9'' c1 then Some (digit_val c1, r)
               else None))"

text \<open>The minute: \<^verbatim>\<open>[0-5]\d|\d\<close>, and what follows it.\<close>

definition minute_token :: "pystr \<Rightarrow> (nat \<times> pystr) option" where
  "minute_token s =
     (case s of
        [] \<Rightarrow> None
      | c1 # r \<Rightarrow>
          (case r of
             [] \<Rightarrow> if is_decimal c1 then Some (decimal_of c1, r) else None
           | c2 # rest \<Rightarrow>
               if in_range CHR ''0'' CHR ''5'' c1 \<and> is_decimal c2
               then Some (10 * digit_val c1 + decimal_of c2, rest)
               else if is_decimal c1 then Some (decimal_of c1, r)
               else None))"

text \<open>The year: \<^verbatim>\<open>\d\d\d\d\<close>, and what follows it.\<close>

definition year_token :: "pystr \<Rightarrow> (nat \<times> pystr) option" where
  "year_token s =
     (if 4 \<le> length s \<and> list_all is_decimal (take 4 s)
      then Some (foldl (\<lambda>a c. 10 * a + decimal_of c) 0 (take 4 s), drop 4 s)
      else None)"

definition expect_char :: "nat \<Rightarrow> pystr \<Rightarrow> pystr option" where
  "expect_char c s = (case s of [] \<Rightarrow> None | d # ds \<Rightarrow> if d = c then Some ds else None)"

definition strptime_smard :: "pystr \<Rightarrow> timestamp option" where
  "strptime_smard s =
     (case find_pos (py_lower (take 3 s)) month_names of
        None \<Rightarrow> None
      | Some mi \<Rightarrow>
     (case skip_spaces (drop 3 s) of
        None \<Rightarrow> None
      | Some s1 \<Rightarrow>
     (case day_token s1 of
        None \<Rightarrow> None
      | Some (d, s2) \<Rightarrow>
     (case expect_char (chr CHR '','') s2 of
        None \<Rightarrow> None
      | Some s3 \<Rightarrow>
     (case skip_spaces s3 of
        None \<Rightarrow> None
      | Some s4 \<Rightarrow>
     (case year_token s4 of
        None \<Rightarrow> None
      | Some (y, s5) \<Rightarrow>
     (case skip_spaces s5 of
        None \<Rightarrow> None
      | Some s6 \<Rightarrow>
     (case hour_token s6 of
        None \<Rightarrow> None
      | Some (h, s7) \<Rightarrow>
     (case expect_char (chr CHR '':'') s7 of
        None \<Rightarrow> None
      | Some s8 \<Rightarrow>
     (case minute_token s8 of
        None \<Rightarrow> None
      | Some (mn, s9) \<Rightarrow>
     (case skip_spaces s9 of
        None \<Rightarrow> None
      | Some s10 \<Rightarrow>
     (let m = Suc mi;
          ampm = py_lower s10;
          hour = (if ampm = str ''am'' then (if h = 12 then 0 else h)
                  else (if h = 12 then 12 else h + 12))
      in if (ampm = str ''am'' \<or> ampm = str ''pm'') \<and> 1 \<le> y \<and> d \<le> days_in_month y m
         then Some (Timestamp y m d hour mn)
         else None))))))))))))"

text \<open>One cell under \<^verbatim>\<open>errors='coerce'\<close>: what is no string and no date becomes \<^verbatim>\<open>NaT\<close>.\<close>

definition to_datetime_coerce :: "pyval \<Rightarrow> pyval" where
  "to_datetime_coerce v =
     (case v of
        PyStr s \<Rightarrow> (case strptime_smard s of Some t \<Rightarrow> PyTimestamp t | None \<Rightarrow> PyNaT)
      | PyTimestamp t \<Rightarrow> PyTimestamp t
      | _ \<Rightarrow> PyNaT)"

text \<open>
  \<^verbatim>\<open>pd.to_datetime(col)\<close> with no format and the default \<^verbatim>\<open>errors='raise'\<close>: a missing
  value becomes \<^verbatim>\<open>NaT\<close>, and a value pandas cannot read as a date raises. Which texts
  pandas reads as dates is left open: \<open>conv\<close> is that reading of one value, \<open>None\<close>
  where there is none.
\<close>

fun to_datetime_raise :: "(pyval \<Rightarrow> timestamp option) \<Rightarrow> pyval list \<Rightarrow> error + pyval list" where
  "to_datetime_raise conv [] = Inr []"
| "to_datetime_raise conv (v # vs) =
     (case (if pd_isna v then Some PyNaT
            else (case v of
                    PyTimestamp t \<Rightarrow> Some (PyTimestamp t)
                  | _ \<Rightarrow> map_option PyTimestamp (conv v))) of
        None \<Rightarrow> Inl ValueError
      | Some t \<Rightarrow>
          (case to_datetime_raise conv vs of
             Inl e \<Rightarrow> Inl e
           | Inr ts \<Rightarrow> Inr (t # ts)))"

section \<open>Data frames\<close>

text \<open>
  A \<^verbatim>\<open>DataFrame\<close>: the column labels in order, and the rows, each the row's index key and
  its cells in column order. A frame that pandas builds is rectangular; a cell read
  beyond a row's end is the missing value.
\<close>

record dataframe =
  columns :: "pystr list"
  rows :: "(pyval \<times> pyval list) list"

definition index :: "dataframe \<Rightarrow> pyval list" where
  "index df = map fst (rows df)"

definition cell_at :: "pyval list \<Rightarrow> nat \<Rightarrow> pyval" where
  "cell_at r i = (if i < length r then r ! i else PyFloat NaN)"

definition remove_nth :: "nat \<Rightarrow> 'a list \<Rightarrow> 'a list" where
  "remove_nth i xs = take i xs @ drop (Suc i) xs"

definition select_by :: "bool list \<Rightarrow> 'a list \<Rightarrow> 'a list" where
  "select_by keep xs = map snd (filter fst (zip keep xs))"

text \<open>\<^verbatim>\<open>df[name]\<close>\<close>

definition getitem :: "dataframe \<Rightarrow> pystr \<Rightarrow> error + pyval list" where
  "getitem df name =
     (case find_pos name (columns df) of
        None \<Rightarrow> Inl KeyError
      | Some i \<Rightarrow> Inr (map (\<lambda>(k, r). cell_at r i) (rows df)))"

text \<open>\<^verbatim>\<open>df[name] = vals\<close>: an existing column is overwritten, a new one is appended.\<close>

definition setitem :: "dataframe \<Rightarrow> pystr \<Rightarrow> pyval list \<Rightarrow> dataframe" where
  "setitem df name vals =
     (case find_pos name (columns df) of
        Some i \<Rightarrow> df\<lparr>rows := map (\<lambda>((k, r), v). (k, r[i := v])) (zip (rows df) vals)\<rparr>
      | None \<Rightarrow> \<lparr>columns = columns df @ [name],
                 rows = map (\<lambda>((k, r), v). (k, r @ [v])) (zip (rows df) vals)\<rparr>)"

text \<open>\<^verbatim>\<open>df.dropna(subset=[name])\<close>: a label that is no column raises \<^verbatim>\<open>KeyError\<close>.\<close>

definition dropna :: "pystr \<Rightarrow> dataframe \<Rightarrow> error + dataframe" where
  "dropna name df =
     (case find_pos name (columns df) of
        None \<Rightarrow> Inl KeyError
      | Some i \<Rightarrow> Inr (df\<lparr>rows := filter (\<lambda>(k, r). \<not> pd_isna (cell_at r i)) (rows df)\<rparr>))"

text \<open>\<^verbatim>\<open>df.set_index(name)\<close>: the column becomes the index and leaves the columns.\<close>

definition set_index :: "pystr \<Rightarrow> dataframe \<Rightarrow> error + dataframe" where
  "set_index name df =
     (case find_pos name (columns df) of
        None \<Rightarrow> Inl KeyError
      | Some i \<Rightarrow>
          Inr \<lparr>columns = remove_nth i (columns df),
               rows = map (\<lambda>(k, r). (cell_at r i, remove_nth i r)) (rows df)\<rparr>)"

text \<open>\<^verbatim>\<open>df.drop(columns=names, errors='ignore')\<close>\<close>

definition drop_columns :: "pystr list \<Rightarrow> dataframe \<Rightarrow> dataframe" where
  "drop_columns names df =
     (let keep = map (\<lambda>c. c \<notin> set names) (columns df)
      in \<lparr>columns = select_by keep (columns df),
          rows = map (\<lambda>(k, r). (k, select_by keep r)) (rows df)\<rparr>)"

text \<open>
  \<^verbatim>\<open>left.join(right, how='inner')\<close>: a label that both frames carry raises \<^verbatim>\<open>ValueError\<close>
  (columns overlap but no suffix specified); otherwise every row of the left frame is
  paired with every row of the right frame under the same key.
\<close>

definition join_inner :: "dataframe \<Rightarrow> dataframe \<Rightarrow> error + dataframe" where
  "join_inner l r =
     (if list_ex (\<lambda>c. c \<in> set (columns r)) (columns l) then Inl ValueError
      else Inr \<lparr>columns = columns l @ columns r,
                rows = concat (map (\<lambda>(k, a). map (\<lambda>(k', b). (k, a @ b))
                                                    (filter (\<lambda>(k', b). k' = k) (rows r)))
                                   (rows l))\<rparr>)"

definition ts_rank :: "timestamp \<Rightarrow> nat" where
  "ts_rank t =
     (((ts_year t * 12 + (ts_month t - 1)) * 31 + (ts_day t - 1)) * 24 + ts_hour t) * 60
       + ts_minute t"

definition index_rank :: "pyval \<Rightarrow> nat" where
  "index_rank k = (case k of PyTimestamp t \<Rightarrow> ts_rank t | _ \<Rightarrow> 0)"

text \<open>\<^verbatim>\<open>df.sort_index()\<close> on an index of timestamps.\<close>

definition sort_index :: "dataframe \<Rightarrow> dataframe" where
  "sort_index df = df\<lparr>rows := sort_key (\<lambda>(k, r). index_rank k) (rows df)\<rparr>"

section \<open>\<^verbatim>\<open>clean_smard_df\<close>\<close>

text \<open>Lines 85 to 89: the name a raw header is renamed to.\<close>

definition clean_name :: "pystr \<Rightarrow> pystr" where
  "clean_name col =
     (let clean_name =
            py_replace (chr CHR '' '') (str ''_'')
              (py_strip (case py_split (chr CHR ''['') col of [] \<Rightarrow> [] | p # ps \<Rightarrow> p))
      in if py_in (str ''residual'') (py_lower col) then str ''Residual_Load''
         else if py_in (str ''grid_load'') (py_lower col) \<or> py_in (str ''grid load'') (py_lower col)
         then str ''Grid_Load''
         else clean_name)"

text \<open>
  Lines 81 to 91: the loop runs over the labels the frame had when the loop began, and
  each \<^verbatim>\<open>df.rename(columns={col: clean_name})\<close> renames every column that carries the
  label \<^verbatim>\<open>col\<close> at that moment.
\<close>

fun rename_loop :: "pystr list \<Rightarrow> pystr list \<Rightarrow> pystr list" where
  "rename_loop [] cur = cur"
| "rename_loop (col # rest) cur =
     rename_loop rest (map (\<lambda>c. if c = col then clean_name col else c) cur)"

definition is_str :: "pyval \<Rightarrow> bool" where
  "is_str v = (case v of PyStr s \<Rightarrow> True | _ \<Rightarrow> False)"

text \<open>\<^verbatim>\<open>series.apply(parse_german_number)\<close>\<close>

fun series_apply :: "pyval list \<Rightarrow> error + pyval list" where
  "series_apply [] = Inr []"
| "series_apply (v # vs) =
     (case parse_german_number v of
        Inl e \<Rightarrow> Inl e
      | Inr f \<Rightarrow>
          (case series_apply vs of
             Inl e \<Rightarrow> Inl e
           | Inr fs \<Rightarrow> Inr (PyFloat f # fs)))"

text \<open>
  Lines 98 to 100. A column that pandas read has dtype \<^verbatim>\<open>object\<close> exactly when it holds
  text. Where a label stands on several columns, \<^verbatim>\<open>df[col]\<close> is a frame, which has no
  \<^verbatim>\<open>dtype\<close>: \<^verbatim>\<open>AttributeError\<close>.
\<close>

fun numeric_loop :: "pystr list \<Rightarrow> dataframe \<Rightarrow> error + dataframe" where
  "numeric_loop [] df = Inr df"
| "numeric_loop (col # rest) df =
     (if 1 < count_list (columns df) col then Inl AttributeError
      else (case getitem df col of
              Inl e \<Rightarrow> Inl e
            | Inr cells \<Rightarrow>
                if list_ex is_str cells then
                  (case series_apply cells of
                     Inl e \<Rightarrow> Inl e
                   | Inr vals \<Rightarrow> numeric_loop rest (setitem df col vals))
                else numeric_loop rest df))"

text \<open>Lines 47 to 67: the timestamp column.\<close>

definition add_timestamp :: "(pyval \<Rightarrow> timestamp option) \<Rightarrow> dataframe \<Rightarrow> error + dataframe" where
  "add_timestamp conv df =
     (if (str ''Start date'') \<in> set (columns df) then
        (case getitem df (str ''Start date'') of
           Inl e \<Rightarrow> Inl e
         | Inr cells \<Rightarrow> Inr (setitem df (str ''timestamp'') (map to_datetime_coerce cells)))
      else if (str ''timestamp'') \<in> set (columns df) then
        (case getitem df (str ''timestamp'') of
           Inl e \<Rightarrow> Inl e
         | Inr cells \<Rightarrow>
             (case to_datetime_raise conv cells of
                Inl e \<Rightarrow> Inl e
              | Inr ts \<Rightarrow> Inr (setitem df (str ''timestamp'') ts)))
      else Inr df)"

definition date_like :: "pystr \<Rightarrow> bool" where
  "date_like c = (py_in (str ''date'') (py_lower c) \<or> py_in (str ''timestamp'') (py_lower c))"

text \<open>Lines 47 to 102: what \<^verbatim>\<open>clean_smard_df\<close> does with the frame it has read.\<close>

definition clean_frame :: "(pyval \<Rightarrow> timestamp option) \<Rightarrow> dataframe \<Rightarrow> error + dataframe" where
  "clean_frame conv df0 =
     (case add_timestamp conv df0 of
        Inl e \<Rightarrow> Inl e
      | Inr df1 \<Rightarrow>
     (case dropna (str ''timestamp'') df1 of
        Inl e \<Rightarrow> Inl e
      | Inr df2 \<Rightarrow>
     (case set_index (str ''timestamp'') df2 of
        Inl e \<Rightarrow> Inl e
      | Inr df3 \<Rightarrow>
     (let cols_to_drop = filter date_like (columns df3);
          df4 = drop_columns cols_to_drop df3;
          df5 = df4\<lparr>columns := rename_loop (columns df4) (columns df4)\<rparr>
      in numeric_loop (columns df5) df5))))"

text \<open>
  What the program prints, and a run: the lines printed, and the exception that ended the
  run or the value returned.
\<close>

datatype console = Print pystr | PrintInfo dataframe | PrintList "pystr list"

type_synonym 'a run = "console list \<times> (error + 'a)"

definition and_then :: "'a run \<Rightarrow> ('a \<Rightarrow> 'b run) \<Rightarrow> 'b run" where
  "and_then m f =
     (case m of
        (out, Inl e) \<Rightarrow> (out, Inl e)
      | (out, Inr x) \<Rightarrow> (case f x of (out', r) \<Rightarrow> (out @ out', r)))"

text \<open>
  Lines 25 to 102. \<open>read_csv\<close> stands for
  \<^verbatim>\<open>pd.read_csv(file_path, sep=';', thousands='.', decimal=',')\<close>: the frame read, or the
  text of the exception. \<open>None\<close> is Python's \<^verbatim>\<open>None\<close>.
\<close>

definition clean_smard_df ::
  "(pyval \<Rightarrow> timestamp option) \<Rightarrow> (pystr \<Rightarrow> pystr + dataframe) \<Rightarrow> pystr \<Rightarrow>
   dataframe option run" where
  "clean_smard_df conv read_csv file_path =
     (case read_csv file_path of
        Inl e \<Rightarrow>
          ([Print ((str ''Processing '') @ file_path @ str ''...''),
            Print ((str ''Error reading '') @ file_path @ str '': '' @ e)], Inr None)
      | Inr df \<Rightarrow>
          ([Print ((str ''Processing '') @ file_path @ str ''...'')],
           (case clean_frame conv df of Inl e \<Rightarrow> Inl e | Inr d \<Rightarrow> Inr (Some d))))"

section \<open>\<^verbatim>\<open>run_pipeline\<close>\<close>

definition data_dir :: pystr where
  "data_dir = str ''../data''"

definition generation_csv :: pystr where
  "generation_csv = data_dir @ str ''/generation.csv''"

definition consumption_csv :: pystr where
  "consumption_csv = data_dir @ str ''/consumption.csv''"

definition prices_csv :: pystr where
  "prices_csv = data_dir @ str ''/prices.csv''"

definition output_path :: pystr where
  "output_path = data_dir @ str ''/energy_dataset_master.csv''"

text \<open>The euro sign, U+20AC.\<close>

definition euro_sign :: pystr where
  "euro_sign = [0x20AC]"

text \<open>Lines 139 to 149: the price column.\<close>

definition rename_price :: "dataframe \<Rightarrow> dataframe" where
  "rename_price price_df =
     (case find (\<lambda>col. py_in (str ''Deutschland'') col \<or> py_in euro_sign col) (columns price_df) of
        Some col \<Rightarrow>
          price_df\<lparr>columns := map (\<lambda>c. if c = col then str ''Day_Ahead_Price'' else c)
                                    (columns price_df)\<rparr>
      | None \<Rightarrow>
          if length (columns price_df) = 1
          then price_df\<lparr>columns := [str ''Day_Ahead_Price'']\<rparr>
          else price_df)"

text \<open>Lines 115 to 121, 124 to 127 and 134 to 151: one source each.\<close>

definition process_generation ::
  "(pyval \<Rightarrow> timestamp option) \<Rightarrow> (pystr \<Rightarrow> pystr + dataframe) \<Rightarrow> dataframe list \<Rightarrow>
   dataframe list run" where
  "process_generation conv read_csv dfs =
     and_then (clean_smard_df conv read_csv generation_csv)
       (\<lambda>gen_df. ([], Inr (case gen_df of None \<Rightarrow> dfs | Some d \<Rightarrow> dfs @ [d])))"

definition process_consumption ::
  "(pyval \<Rightarrow> timestamp option) \<Rightarrow> (pystr \<Rightarrow> pystr + dataframe) \<Rightarrow> dataframe list \<Rightarrow>
   dataframe list run" where
  "process_consumption conv read_csv dfs =
     and_then (clean_smard_df conv read_csv consumption_csv)
       (\<lambda>cons_df. ([], Inr (case cons_df of None \<Rightarrow> dfs | Some d \<Rightarrow> dfs @ [d])))"

definition process_prices ::
  "(pyval \<Rightarrow> timestamp option) \<Rightarrow> (pystr \<Rightarrow> pystr + dataframe) \<Rightarrow> dataframe list \<Rightarrow>
   dataframe list run" where
  "process_prices conv read_csv dfs =
     and_then (clean_smard_df conv read_csv prices_csv)
       (\<lambda>price_df. ([], Inr (case price_df of None \<Rightarrow> dfs
                               | Some d \<Rightarrow> dfs @ [rename_price d])))"

text \<open>Lines 160 to 162: the frames after the first are joined to it one by one.\<close>

fun join_all :: "dataframe \<Rightarrow> dataframe list \<Rightarrow> error + dataframe" where
  "join_all master_df [] = Inr master_df"
| "join_all master_df (d # ds) =
     (case join_inner master_df d of
        Inl e \<Rightarrow> Inl e
      | Inr m \<Rightarrow> join_all m ds)"

text \<open>
  Lines 153 to 177. The value of a run is the file written, its path and its content, or
  \<open>None\<close> when the driver returns before writing.
\<close>

definition merge_and_save :: "dataframe list \<Rightarrow> (pystr \<times> dataframe) option run" where
  "merge_and_save dfs =
     (case dfs of
        [] \<Rightarrow> ([Print (str ''No data processed.'')], Inr None)
      | d # ds \<Rightarrow>
          (case join_all d ds of
             Inl e \<Rightarrow> ([Print (str ''Merging datasets...'')], Inl e)
           | Inr m \<Rightarrow>
               (let master_df = sort_index m
                in ([Print (str ''Merging datasets...''),
                     Print ((str ''Saved master dataset to '') @ output_path),
                     Print (str ''Master DataFrame Info:''),
                     PrintInfo master_df,
                     Print (0x0A # str ''Column names:''),
                     PrintList (columns master_df)],
                    Inr (Some (output_path, master_df))))))"

definition run_pipeline ::
  "(pyval \<Rightarrow> timestamp option) \<Rightarrow> (pystr \<Rightarrow> pystr + dataframe) \<Rightarrow>
   (pystr \<times> dataframe) option run" where
  "run_pipeline conv read_csv =
     and_then (process_generation conv read_csv [])
       (\<lambda>dfs. and_then (process_consumption conv read_csv dfs)
         (\<lambda>dfs. and_then (process_prices conv read_csv dfs) merge_and_save))"

section \<open>The specification's header rules\<close>

text \<open>
  The specification's account of header canonicalization, for comparison with
  \<open>clean_name\<close>: a list of rules, each a test of the raw header and a canonical name,
  tried in order; the first rule whose test holds gives the name; a header that no rule
  matches gets the generic cleanup, which cuts the header at its bracketed unit
  annotation, trims whitespace and replaces spaces by underscores. A rule's test is a
  substring match that ignores case.
\<close>

definition contains_ci :: "pystr \<Rightarrow> pystr \<Rightarrow> bool" where
  "contains_ci needle header =
     list_ex (\<lambda>i. py_lower (take (length needle) (drop i header)) = py_lower needle)
       [0..<Suc (length header)]"

definition generic_cleanup :: "pystr \<Rightarrow> pystr" where
  "generic_cleanup header =
     py_replace (chr CHR '' '') (str ''_'') (py_strip (takeWhile (\<lambda>c. c \<noteq> (chr CHR ''['')) header))"

definition rename_rules :: "((pystr \<Rightarrow> bool) \<times> pystr) list" where
  "rename_rules =
     [(contains_ci (str ''residual''), str ''Residual_Load''),
      (\<lambda>h. contains_ci (str ''grid load'') h \<or> contains_ci (str ''grid_load'') h, str ''Grid_Load'')]"

definition canonical_name :: "pystr \<Rightarrow> pystr" where
  "canonical_name header =
     (case find (\<lambda>rule. fst rule header) rename_rules of
        Some rule \<Rightarrow> snd rule
      | None \<Rightarrow> generic_cleanup header)"

text \<open>
  The specification's test for the price column, on the raw header: the header carries
  \<^verbatim>\<open>Deutschland\<close> or the euro sign in the part that header canonicalization keeps, before
  the unit annotation, and no rename rule gives it another name.
\<close>

definition price_header :: "pystr \<Rightarrow> bool" where
  "price_header header =
     (find (\<lambda>rule. fst rule header) rename_rules = None \<and>
      (py_in (str ''Deutschland'') (takeWhile (\<lambda>c. c \<noteq> chr CHR ''['') header) \<or>
       py_in euro_sign (takeWhile (\<lambda>c. c \<noteq> chr CHR ''['') header)))"

section \<open>Properties of the number parser\<close>


lemma digits_value_foldl:
  "foldl (\<lambda>a c. 10 * a + digit_val c) a ds = a * 10 ^ length ds + digits_value ds"
proof (induction ds arbitrary: a)
  case Nil
  then show ?case by (simp add: digits_value_def)
next
  case (Cons d ds)
  have "foldl (\<lambda>a c. 10 * a + digit_val c) a (d # ds) =
        (10 * a + digit_val d) * 10 ^ length ds + digits_value ds"
    using Cons.IH [of "10 * a + digit_val d"] by simp
  moreover have "digits_value (d # ds) = digit_val d * 10 ^ length ds + digits_value ds"
    using Cons.IH [of "digit_val d"] by (simp add: digits_value_def)
  ultimately show ?case by (simp add: algebra_simps)
qed

lemma digits_value_append:
  "digits_value (a @ b) = digits_value a * 10 ^ length b + digits_value b"
  using digits_value_foldl [of "digits_value a" b] by (simp add: digits_value_def)

lemma py_replace_append: "py_replace old new (a @ b) = py_replace old new a @ py_replace old new b"
  by (simp add: py_replace_def)

lemma py_replace_Cons:
  "py_replace old new (c # s) = (if c = old then new else [c]) @ py_replace old new s"
  by (simp add: py_replace_def)

lemma dropWhile_hd: "xs \<noteq> [] \<Longrightarrow> \<not> P (hd xs) \<Longrightarrow> dropWhile P xs = xs"
  by (cases xs) auto

lemma py_replace_absent: "old \<notin> set s \<Longrightarrow> py_replace old new s = s"
  by (induction s) (auto simp: py_replace_def)

lemma py_replace_filter: "py_replace old [] s = filter (\<lambda>c. c \<noteq> old) s"
  by (induction s) (auto simp: py_replace_def)

lemma chr_values:
  "chr CHR ''.'' = 46" "chr CHR '','' = 44" "chr CHR ''_'' = 95" "chr CHR ''-'' = 45"
  "chr CHR ''+'' = 43" "chr CHR ''e'' = 101" "chr CHR ''E'' = 69" "chr CHR '' '' = 32"
  "chr CHR ''?'' = 63" "chr CHR ''['' = 91"
  by (simp_all add: chr_def)

lemma digit_not_special:
  "is_digit c \<Longrightarrow>
   c \<noteq> chr CHR ''.'' \<and> c \<noteq> chr CHR '','' \<and> c \<noteq> chr CHR ''_'' \<and> c \<noteq> chr CHR ''-'' \<and>
   c \<noteq> chr CHR ''+'' \<and> \<not> is_c_space c \<and> c < 128"
  by (auto simp: is_digit_def is_c_space_def chr_values)

lemma digits_no_dot: "list_all is_digit ds \<Longrightarrow> chr CHR ''.'' \<notin> set ds"
  using digit_not_special by (auto simp: list_all_iff)

lemma digits_no_comma: "list_all is_digit ds \<Longrightarrow> chr CHR '','' \<notin> set ds"
  using digit_not_special by (auto simp: list_all_iff)

lemma digits_no_underscore: "list_all is_digit ds \<Longrightarrow> chr CHR ''_'' \<notin> set ds"
  using digit_not_special by (auto simp: list_all_iff)

lemma remove_dots_join:
  "list_all (list_all is_digit) groups \<Longrightarrow>
   py_replace (chr CHR ''.'') [] (py_join (str ''.'') groups) = concat groups"
proof (induction groups)
  case Nil
  then show ?case by (simp add: py_replace_def)
next
  case (Cons p ps)
  have p: "py_replace (chr CHR ''.'') [] p = p"
    using Cons.prems digits_no_dot [of p] by (simp add: py_replace_absent)
  have dot: "py_replace (chr CHR ''.'') [] (str ''.'') = []"
    by (simp add: py_replace_def str_def)
  show ?case
  proof (cases ps)
    case Nil
    then show ?thesis using p by simp
  next
    case (Cons q qs)
    show ?thesis using p dot Cons Cons.IH Cons.prems by (simp add: py_replace_append)
  qed
qed

lemma strip_with_id:
  "s \<noteq> [] \<Longrightarrow> \<not> P (hd s) \<Longrightarrow> \<not> P (last s) \<Longrightarrow> strip_with P s = s"
proof -
  assume a: "s \<noteq> []" "\<not> P (hd s)" "\<not> P (last s)"
  then have 1: "dropWhile P s = s" by (simp add: dropWhile_hd)
  have "rev s \<noteq> []" "hd (rev s) = last s" using a by (auto simp: hd_rev)
  then have 2: "dropWhile P (rev s) = rev s" using a by (simp add: dropWhile_hd)
  show ?thesis by (simp add: strip_with_def 1 2)
qed

lemma py_strip_id:
  "s \<noteq> [] \<Longrightarrow> \<not> is_space (hd s) \<Longrightarrow> \<not> is_space (last s) \<Longrightarrow> py_strip s = s"
  unfolding py_strip_def by (rule strip_with_id)

lemma takeWhile_stop:
  "r = [] \<or> \<not> P (hd r) \<Longrightarrow> takeWhile P r = [] \<and> dropWhile P r = r"
  by (cases r) auto

lemma takeWhile_digits:
  "list_all is_digit ds \<Longrightarrow> r = [] \<or> \<not> is_digit (hd r) \<Longrightarrow>
   takeWhile is_digit (ds @ r) = ds \<and> dropWhile is_digit (ds @ r) = r"
  by (induction ds) (simp_all add: takeWhile_stop)

lemma parse_decimal_plain:
  assumes "ds \<noteq> []" "list_all is_digit ds"
  shows "parse_decimal ds = Some (of_nat (digits_value ds))"
proof -
  have 1: "takeWhile is_digit ds = ds \<and> dropWhile is_digit ds = []"
    using assms takeWhile_digits[of ds "[]"] by simp
  show ?thesis
    using assms by (simp add: parse_decimal_def 1 parse_exponent_def scale10_def Let_def)
qed

lemma parse_decimal_point:
  assumes "ds \<noteq> []" "list_all is_digit ds" "list_all is_digit fs"
  shows "parse_decimal (ds @ chr CHR ''.'' # fs) =
         Some (of_nat (digits_value ds) + of_nat (digits_value fs) / 10 ^ length fs)"
proof -
  have nd: "\<not> is_digit (chr CHR ''.'')" by (simp add: is_digit_def chr_values)
  have 1: "takeWhile is_digit (ds @ chr CHR ''.'' # fs) = ds \<and>
           dropWhile is_digit (ds @ chr CHR ''.'' # fs) = chr CHR ''.'' # fs"
    using assms nd takeWhile_digits[of ds "chr CHR ''.'' # fs"] by simp
  have 2: "takeWhile is_digit fs = fs \<and> dropWhile is_digit fs = []"
    using assms takeWhile_digits[of fs "[]"] by simp
  have "parse_decimal (ds @ chr CHR ''.'' # fs) =
        Some (scale10 (of_nat (digits_value (ds @ fs))) (- int (length fs)))"
    using assms by (simp add: parse_decimal_def 1 2 parse_exponent_def Let_def)
  moreover have "scale10 (of_nat (digits_value (ds @ fs))) (- int (length fs)) =
        of_nat (digits_value ds) + of_nat (digits_value fs) / 10 ^ length fs"
    by (simp add: scale10_def digits_value_append add_divide_distrib)
  ultimately show ?thesis by simp
qed

lemma py_float_digits:
  assumes "ds \<noteq> []" "list_all is_digit ds"
    and "rest = [] \<or> (\<exists>fs. rest = chr CHR ''.'' # fs \<and> list_all is_digit fs)"
    and "parse_decimal (ds @ rest) = Some q"
  shows "py_float ((if neg then str ''-'' else []) @ ds @ rest) =
         Inr (to_double (if neg then - q else q))"
proof -
  define t where "t = (if neg then str ''-'' else []) @ ds @ rest"
  have sign: "(if neg then str ''-'' else []) = (if neg then [chr CHR ''-''] else [])"
    by (simp add: str_def)
  have hd_ds: "is_digit (hd ds)" using assms(1,2) by (cases ds) auto
  have nonempty: "t \<noteq> []" using assms(1) by (simp add: t_def)
  have hd_t: "\<not> is_c_space (hd t)"
    using assms(1) hd_ds digit_not_special[of "hd ds"]
    by (auto simp: t_def sign is_c_space_def chr_values)
  have last_t: "\<not> is_c_space (last t)"
  proof (cases "rest = []")
    case True
    then have "last t = last ds" using assms(1) by (simp add: t_def)
    moreover have "is_digit (last ds)" using assms(1,2) by (auto simp: list_all_iff)
    ultimately show ?thesis using digit_not_special by auto
  next
    case False
    then obtain fs where fs: "rest = chr CHR ''.'' # fs" "list_all is_digit fs"
      using assms(3) by auto
    show ?thesis
    proof (cases "fs = []")
      case True
      then show ?thesis using fs by (simp add: t_def is_c_space_def chr_values)
    next
      case False
      then have "last t = last fs" using fs by (simp add: t_def)
      moreover have "is_digit (last fs)" using False fs by (auto simp: list_all_iff)
      ultimately show ?thesis using digit_not_special by auto
    qed
  qed
  have ascii_ds: "list_all (\<lambda>c. c < 128) ds"
    using assms(2) digit_not_special by (auto simp: list_all_iff)
  have ascii_rest: "list_all (\<lambda>c. c < 128) rest"
    using assms(3) digit_not_special by (auto simp: list_all_iff chr_values)
  have "list_all (\<lambda>c. c < 128) t"
    using ascii_ds ascii_rest by (simp add: t_def sign chr_values)
  then have transform: "transform_decimal_and_space t = t"
    by (simp add: transform_decimal_and_space_def)
  have strip: "strip_with is_c_space t = t" using nonempty hd_t last_t by (rule strip_with_id)
  have no_us: "chr CHR ''_'' \<notin> set t"
    using assms(2,3) digits_no_underscore by (auto simp: t_def sign chr_values)
  have split: "split_sign t = (neg, ds @ rest)"
    using assms(1) hd_ds digit_not_special[of "hd ds"]
    by (cases ds) (auto simp: split_sign_def t_def sign)
  have "py_float t = float_from_string_inner t"
    using no_us by (simp add: py_float_def Let_def transform strip)
  also have "\<dots> = Inr (to_double (if neg then - q else q))"
    using split assms(4) by (simp add: float_from_string_inner_def)
  finally show ?thesis by (simp add: t_def)
qed

lemma german_clean_str:
  assumes "german_digits groups dec"
  shows "py_replace (chr CHR '','') (str ''.'')
           (py_replace (chr CHR ''.'') [] (german_text neg groups dec)) =
         (if neg then str ''-'' else []) @ concat groups @
         (case dec of None \<Rightarrow> [] | Some f \<Rightarrow> chr CHR ''.'' # f)"
proof -
  have groups: "list_all (list_all is_digit) groups" using assms by (simp add: german_digits_def)
  have 1: "py_replace (chr CHR ''.'') [] (py_join (str ''.'') groups) = concat groups"
    using groups by (rule remove_dots_join)
  have cg: "list_all is_digit (concat groups)" using groups by (auto simp: list_all_iff)
  have 2: "py_replace (chr CHR '','') (str ''.'') (concat groups) = concat groups"
    using digits_no_comma [OF cg] by (simp add: py_replace_absent)
  have minus: "py_replace (chr CHR ''.'') [] (str ''-'') = str ''-''"
    "py_replace (chr CHR '','') (str ''.'') (str ''-'') = str ''-''"
    by (simp_all add: py_replace_def str_def chr_def)
  show ?thesis
  proof (cases dec)
    case None
    then show ?thesis
      by (simp add: german_text_def py_replace_append 1 2 minus) (simp add: py_replace_def)
  next
    case (Some f)
    then have f: "list_all is_digit f" using assms by (simp add: german_digits_def)
    have 3: "py_replace (chr CHR ''.'') [] f = f" "py_replace (chr CHR '','') (str ''.'') f = f"
      using digits_no_dot [OF f] digits_no_comma [OF f] by (simp_all add: py_replace_absent)
    have comma: "py_replace (chr CHR '','') (str ''.'') (py_replace (chr CHR ''.'') [] (chr CHR '','' # f)) =
                 chr CHR ''.'' # f"
      using 3 by (simp add: py_replace_Cons chr_values str_def)
    show ?thesis
      using Some comma
      by (simp add: german_text_def py_replace_append 1 2 minus) (simp add: py_replace_def)
  qed
qed

lemma parse_german_format:
  assumes "german_digits groups dec"
  shows "parse_german_number (PyStr (german_text neg groups dec)) =
         Inr (to_double (german_value neg groups dec))"
proof -
  let ?ds = "concat groups"
  let ?rest = "case dec of None \<Rightarrow> [] | Some f \<Rightarrow> chr CHR ''.'' # f"
  let ?v = "of_nat (digits_value ?ds) +
            (case dec of None \<Rightarrow> 0 | Some f \<Rightarrow> of_nat (digits_value f) / 10 ^ length f) :: rat"
  have ds: "?ds \<noteq> []" "list_all is_digit ?ds"
    using assms by (auto simp: german_digits_def list_all_iff)
  have rest: "?rest = [] \<or> (\<exists>fs. ?rest = chr CHR ''.'' # fs \<and> list_all is_digit fs)"
    using assms by (cases dec) (simp_all add: german_digits_def)
  have dec: "parse_decimal (?ds @ ?rest) = Some ?v"
  proof (cases dec)
    case None
    then show ?thesis using parse_decimal_plain[OF ds] by simp
  next
    case (Some f)
    then have "list_all is_digit f" using assms by (simp add: german_digits_def)
    then show ?thesis using Some parse_decimal_point[OF ds, of f] by simp
  qed
  have "py_float ((if neg then str ''-'' else []) @ ?ds @ ?rest) =
        Inr (to_double (if neg then - ?v else ?v))"
    using ds rest dec by (rule py_float_digits)
  then show ?thesis
    by (simp add: parse_german_number_def german_clean_str[OF assms] german_value_def Let_def)
qed

lemma float_inner_error: "float_from_string_inner s = Inl e \<Longrightarrow> e = ValueError"
  by (auto simp: float_from_string_inner_def split: prod.splits option.splits)

lemma py_float_error: "py_float s = Inl e \<Longrightarrow> e = ValueError"
  by (auto simp: py_float_def Let_def split: if_splits option.splits dest: float_inner_error)

lemma parse_german_number_str_total: "\<exists>v. parse_german_number (PyStr s) = Inr v"
proof -
  let ?c = "py_replace (chr CHR '','') (str ''.'') (py_replace (chr CHR ''.'') [] s)"
  show ?thesis
  proof (cases "py_float ?c")
    case (Inl e)
    then have "e = ValueError" by (rule py_float_error)
    then show ?thesis using Inl by (simp add: parse_german_number_def)
  next
    case (Inr v)
    then show ?thesis by (simp add: parse_german_number_def)
  qed
qed

lemma double_limit_pos: "1 < double_limit"
  by (simp add: double_limit_def)

lemma parse_german_number_total:
  "(\<forall>i. x = PyInt i \<longrightarrow> \<bar>i\<bar> < double_limit) \<Longrightarrow> \<exists>v. parse_german_number x = Inr v"
proof (cases x)
  case (PyStr s)
  then show ?thesis using parse_german_number_str_total by simp
next
  case (PyBool b)
  then show ?thesis using double_limit_pos by (simp add: parse_german_number_def float_of_int_def)
next
  case (PyInt i)
  assume "\<forall>i. x = PyInt i \<longrightarrow> \<bar>i\<bar> < double_limit"
  then show ?thesis using PyInt by (simp add: parse_german_number_def float_of_int_def)
qed (simp_all add: parse_german_number_def)

lemmas float_eval =
  parse_german_number_def py_float_def float_from_string_inner_def parse_inf_or_nan_def
  parse_decimal_def scale10_def parse_exponent_def split_sign_def py_replace_def py_lower_def
  lower_cp_def strip_with_def is_c_space_def digits_value_def digit_val_def is_digit_def
  transform_decimal_and_space_def to_double_def double_limit_def str_def chr_def


text \<open>
  Claim C1. \<^verbatim>\<open>parse_german_number\<close> returns a float of the same value for an \<^verbatim>\<open>int\<close>
  inside the range of a double, for a \<^verbatim>\<open>bool\<close> and for a float; for a string in German
  format the float of the value read with every \<^verbatim>\<open>.\<close> deleted and \<^verbatim>\<open>,\<close> as the decimal
  point; NaN for a missing input; and NaN for a string that \<^verbatim>\<open>float\<close> rejects after the
  substitution. It returns, without raising, for every input other than an \<^verbatim>\<open>int\<close>
  outside the range of a double, and for such an \<^verbatim>\<open>int\<close> it raises \<^verbatim>\<open>OverflowError\<close>.
\<close>

theorem parse_german_number_contract:
  "(\<bar>i\<bar> < double_limit \<longrightarrow> parse_german_number (PyInt i) = Inr (Finite (of_int i))) \<and>
   parse_german_number (PyBool b) = Inr (Finite (if b then 1 else 0)) \<and>
   parse_german_number (PyFloat f) = Inr f \<and>
   (german_digits groups dec \<longrightarrow>
      parse_german_number (PyStr (german_text neg groups dec)) =
      Inr (to_double (german_value neg groups dec))) \<and>
   (pd_isna x \<longrightarrow> parse_german_number x = Inr NaN) \<and>
   (py_float (py_replace (chr CHR '','') (str ''.'') (py_replace (chr CHR ''.'') [] s)) = Inl e \<longrightarrow>
      parse_german_number (PyStr s) = Inr NaN) \<and>
   ((\<forall>j. y = PyInt j \<longrightarrow> \<bar>j\<bar> < double_limit) \<longrightarrow> (\<exists>v. parse_german_number y = Inr v)) \<and>
   (double_limit \<le> \<bar>k\<bar> \<longrightarrow> parse_german_number (PyInt k) = Inl OverflowError)"
proof -
  have 1: "\<bar>i\<bar> < double_limit \<Longrightarrow> parse_german_number (PyInt i) = Inr (Finite (of_int i))"
    by (simp add: parse_german_number_def float_of_int_def)
  have 2: "parse_german_number (PyBool b) = Inr (Finite (if b then 1 else 0))"
    using double_limit_pos by (simp add: parse_german_number_def float_of_int_def)
  have 3: "parse_german_number (PyFloat f) = Inr f"
    by (simp add: parse_german_number_def)
  have 4: "pd_isna x \<Longrightarrow> parse_german_number x = Inr NaN"
    by (simp add: parse_german_number_def)
  have 5: "py_float (py_replace (chr CHR '','') (str ''.'') (py_replace (chr CHR ''.'') [] s)) = Inl e \<Longrightarrow>
           parse_german_number (PyStr s) = Inr NaN"
    by (auto simp: parse_german_number_def dest: py_float_error)
  have 6: "double_limit \<le> \<bar>k\<bar> \<Longrightarrow> parse_german_number (PyInt k) = Inl OverflowError"
    by (simp add: parse_german_number_def float_of_int_def)
  show ?thesis
    using 1 2 3 4 5 6 parse_german_format[of groups dec neg] parse_german_number_total[of y]
    by blast
qed

theorem parse_german_number_contract_witness:
  "\<bar>7\<bar> < double_limit \<and> parse_german_number (PyInt 7) = Inr (Finite 7) \<and>
   parse_german_number (PyBool True) = Inr (Finite 1) \<and>
   parse_german_number (PyFloat (Finite 2.5)) = Inr (Finite 2.5) \<and>
   german_digits [str ''1'', str ''234''] (Some (str ''56'')) \<and>
   german_text False [str ''1'', str ''234''] (Some (str ''56'')) = str ''1.234,56'' \<and>
   parse_german_number (PyStr (str ''1.234,56'')) = Inr (Finite 1234.56) \<and>
   pd_isna PyNone \<and> parse_german_number PyNone = Inr NaN \<and>
   py_float (py_replace (chr CHR '','') (str ''.'') (py_replace (chr CHR ''.'') [] (str ''abc''))) =
     Inl ValueError \<and>
   parse_german_number (PyStr (str ''abc'')) = Inr NaN \<and>
   german_digits [str ''42''] None \<and> german_text False [str ''42''] None = str ''42'' \<and>
   parse_german_number (PyStr (str ''42'')) = Inr (Finite 42) \<and>
   double_limit \<le> \<bar>10 ^ 400\<bar> \<and> parse_german_number (PyInt (10 ^ 400)) = Inl OverflowError"
  using parse_german_number_contract
    [of 7 True "Finite 2.5" "[str ''1'', str ''234'']" "Some (str ''56'')" False PyNone
        "str ''abc''" ValueError "PyInt 7" "10 ^ 400"]
    parse_german_number_contract [of 0 False NaN "[str ''42'']" None False]
  by (simp add: german_digits_def german_text_def german_value_def float_eval)

text \<open>
  The claim as the specification has it, for every input value, fails at an \<^verbatim>\<open>int\<close> too
  large for a double: \<^verbatim>\<open>float(x)\<close> at line 15 raises \<^verbatim>\<open>OverflowError\<close>.
\<close>

theorem parse_german_number_overflow:
  "parse_german_number (PyInt (10 ^ 400)) = Inl OverflowError"
  by (simp add: parse_german_number_def float_of_int_def double_limit_def)

text \<open>
  Claim C10. A string with no comma is parsed with its dots deleted, so that \<^verbatim>\<open>"1.5"\<close>
  is read as 15 and not as 1.5.
\<close>

theorem dot_deleted_before_parsing:
  "(chr CHR '','' \<notin> set s \<longrightarrow>
      parse_german_number (PyStr s) =
      (case py_float (filter (\<lambda>c. c \<noteq> chr CHR ''.'') s) of
         Inr v \<Rightarrow> Inr v
       | Inl e \<Rightarrow> Inr NaN)) \<and>
   parse_german_number (PyStr (str ''1.5'')) = Inr (Finite 15) \<and>
   parse_german_number (PyStr (str ''1.5'')) \<noteq> Inr (Finite 1.5)"
proof -
  have "parse_german_number (PyStr s) =
        (case py_float (filter (\<lambda>c. c \<noteq> chr CHR ''.'') s) of Inr v \<Rightarrow> Inr v | Inl e \<Rightarrow> Inr NaN)"
    if "chr CHR '','' \<notin> set s"
  proof -
    have "chr CHR '','' \<notin> set (filter (\<lambda>c. c \<noteq> chr CHR ''.'') s)" using that by simp
    then have "py_replace (chr CHR '','') (str ''.'') (py_replace (chr CHR ''.'') [] s) =
               filter (\<lambda>c. c \<noteq> chr CHR ''.'') s"
      by (simp add: py_replace_filter py_replace_absent)
    then show ?thesis
      by (auto simp: parse_german_number_def split: sum.splits dest: py_float_error)
  qed
  moreover have "parse_german_number (PyStr (str ''1.5'')) = Inr (Finite 15)"
    by (simp add: float_eval)
  ultimately show ?thesis by simp
qed

theorem dot_deleted_before_parsing_witness:
  "chr CHR '','' \<notin> set (str ''1.234'') \<and>
   parse_german_number (PyStr (str ''1.234'')) = Inr (Finite 1234) \<and>
   py_float (str ''1234'') = Inr (Finite 1234)"
  using dot_deleted_before_parsing [of "str ''1.234''"]
  by (simp add: float_eval)

section \<open>Properties of the column normalizer\<close>


lemma find_pos_None: "find_pos x xs = None \<longleftrightarrow> x \<notin> set xs"
  by (induction xs) auto

lemma find_pos_Some: "find_pos x xs = Some i \<Longrightarrow> i < length xs \<and> xs ! i = x"
  by (induction xs arbitrary: i) (auto split: if_splits)

lemma find_pos_first: "find_pos x xs = Some i \<Longrightarrow> j < i \<Longrightarrow> xs ! j \<noteq> x"
proof (induction xs arbitrary: i j)
  case Nil
  then show ?case by simp
next
  case (Cons y ys)
  then show ?case by (cases j) (auto split: if_splits)
qed

lemma find_pos_mem: "x \<in> set xs \<Longrightarrow> \<exists>i. find_pos x xs = Some i"
  using find_pos_None [of x xs] by (cases "find_pos x xs") auto

lemma add_timestamp_absent:
  "str ''Start date'' \<notin> set (columns df) \<Longrightarrow> str ''timestamp'' \<notin> set (columns df) \<Longrightarrow>
   add_timestamp conv df = Inr df"
  by (simp add: add_timestamp_def)

lemma dropna_absent: "name \<notin> set (columns df) \<Longrightarrow> dropna name df = Inl KeyError"
  using find_pos_None [of name "columns df"] by (simp add: dropna_def)

lemma clean_frame_no_timestamp:
  "str ''Start date'' \<notin> set (columns df) \<Longrightarrow> str ''timestamp'' \<notin> set (columns df) \<Longrightarrow>
   clean_frame conv df = Inl KeyError"
  by (simp add: clean_frame_def add_timestamp_absent dropna_absent)

text \<open>
  Claim C3. For a file that is read and has neither a \<^verbatim>\<open>Start date\<close> nor a
  \<^verbatim>\<open>timestamp\<close> column, the claim expects an empty table. The code falls through its
  \<^verbatim>\<open>else: pass\<close> and \<^verbatim>\<open>df.dropna(subset=['timestamp'])\<close> raises \<^verbatim>\<open>KeyError\<close>,
  which nothing catches.
\<close>

theorem missing_timestamp_column_raises:
  "str ''Start date'' \<notin> set (columns df) \<and> str ''timestamp'' \<notin> set (columns df) \<and>
   read_csv file_path = Inr df \<longrightarrow>
   clean_smard_df conv read_csv file_path =
     ([Print (str ''Processing '' @ file_path @ str ''...'')], Inl KeyError)"
  by (simp add: clean_smard_df_def clean_frame_no_timestamp)

theorem missing_timestamp_column_raises_witness:
  "clean_smard_df (\<lambda>v. None)
     (\<lambda>p. Inr \<lparr>columns = [str ''Price''], rows = [(PyInt 0, [PyStr (str ''1,5'')])]\<rparr>) prices_csv =
   ([Print (str ''Processing ../data/prices.csv...'')], Inl KeyError) \<and>
   run_pipeline (\<lambda>v. None)
     (\<lambda>p. if p = prices_csv
          then Inr \<lparr>columns = [str ''Price''], rows = [(PyInt 0, [PyStr (str ''1,5'')])]\<rparr>
          else Inl (str ''No such file'')) =
   ([Print (str ''Processing ../data/generation.csv...''),
     Print (str ''Error reading ../data/generation.csv: No such file''),
     Print (str ''Processing ../data/consumption.csv...''),
     Print (str ''Error reading ../data/consumption.csv: No such file''),
     Print (str ''Processing ../data/prices.csv...'')], Inl KeyError)"
proof -
  let ?df = "\<lparr>columns = [str ''Price''], rows = [(PyInt 0, [PyStr (str ''1,5'')])]\<rparr>"
  let ?fs = "\<lambda>p. if p = prices_csv then Inr ?df else Inl (str ''No such file'')"
  have 1: "clean_smard_df (\<lambda>v. None) (\<lambda>p. Inr ?df) prices_csv =
           ([Print (str ''Processing '' @ prices_csv @ str ''...'')], Inl KeyError)"
    using missing_timestamp_column_raises [of ?df "\<lambda>p. Inr ?df" prices_csv "\<lambda>v. None"]
    by (simp add: str_def chr_def)
  have 2: "clean_smard_df (\<lambda>v. None) ?fs prices_csv =
           ([Print (str ''Processing '' @ prices_csv @ str ''...'')], Inl KeyError)"
    using missing_timestamp_column_raises [of ?df ?fs prices_csv "\<lambda>v. None"]
    by (simp add: str_def chr_def)
  have 3: "clean_smard_df (\<lambda>v. None) ?fs generation_csv =
           ([Print (str ''Processing '' @ generation_csv @ str ''...''),
             Print (str ''Error reading '' @ generation_csv @ str '': No such file'')], Inr None)"
    by (simp add: clean_smard_df_def generation_csv_def prices_csv_def str_def chr_def)
  have 4: "clean_smard_df (\<lambda>v. None) ?fs consumption_csv =
           ([Print (str ''Processing '' @ consumption_csv @ str ''...''),
             Print (str ''Error reading '' @ consumption_csv @ str '': No such file'')], Inr None)"
    by (simp add: clean_smard_df_def consumption_csv_def prices_csv_def str_def chr_def)
  have "run_pipeline (\<lambda>v. None) ?fs =
        ([Print (str ''Processing '' @ generation_csv @ str ''...''),
          Print (str ''Error reading '' @ generation_csv @ str '': No such file''),
          Print (str ''Processing '' @ consumption_csv @ str ''...''),
          Print (str ''Error reading '' @ consumption_csv @ str '': No such file''),
          Print (str ''Processing '' @ prices_csv @ str ''...'')], Inl KeyError)"
    by (simp only: run_pipeline_def process_generation_def process_consumption_def
        process_prices_def 2 3 4) (simp add: and_then_def)
  then show ?thesis using 1
    by (simp add: generation_csv_def consumption_csv_def prices_csv_def data_dir_def str_def)
qed

lemma to_datetime_raise_error: "to_datetime_raise conv vs = Inl e \<Longrightarrow> e = ValueError"
  by (induction vs arbitrary: e) (auto split: option.splits sum.splits if_splits)

lemma to_datetime_raise_fails:
  "v \<in> set vs \<Longrightarrow> \<not> pd_isna v \<Longrightarrow> \<forall>t. v \<noteq> PyTimestamp t \<Longrightarrow> conv v = None \<Longrightarrow>
   to_datetime_raise conv vs = Inl ValueError"
proof (induction vs)
  case Nil
  then show ?case by simp
next
  case (Cons w ws)
  show ?case
  proof (cases "v = w")
    case True
    then show ?thesis using Cons.prems by (cases w) simp_all
  next
    case False
    then have "to_datetime_raise conv ws = Inl ValueError" using Cons by simp
    then show ?thesis by (simp split: option.splits)
  qed
qed

lemma clean_frame_bad_timestamp:
  assumes a: "str ''Start date'' \<notin> set (columns df)" "find_pos (str ''timestamp'') (columns df) = Some i"
    "(k, r) \<in> set (rows df)" "cell_at r i = PyStr s" "conv (PyStr s) = None"
  shows "clean_frame conv df = Inl ValueError"
proof -
  let ?cells = "map (\<lambda>(k, r). cell_at r i) (rows df)"
  have mem: "str ''timestamp'' \<in> set (columns df)"
    using a(2) find_pos_None [of "str ''timestamp''" "columns df"] by auto
  have "PyStr s \<in> set ?cells" using a(3,4) by force
  then have "to_datetime_raise conv ?cells = Inl ValueError"
    using a(5) by (intro to_datetime_raise_fails [of "PyStr s"]) simp_all
  then have "add_timestamp conv df = Inl ValueError"
    using a(1,2) mem by (simp add: add_timestamp_def getitem_def)
  then show ?thesis by (simp add: clean_frame_def)
qed

text \<open>
  Claim C7. The claim expects a row whose timestamp does not parse to be left out. In
  the branch for a \<^verbatim>\<open>timestamp\<close> column the code calls \<^verbatim>\<open>pd.to_datetime\<close> without
  \<^verbatim>\<open>errors='coerce'\<close>: one text that is no date raises \<^verbatim>\<open>ValueError\<close> and no table is
  returned. The branch for \<^verbatim>\<open>Start date\<close> does coerce.
\<close>

theorem unparseable_timestamp_raises:
  "read_csv file_path = Inr df \<and>
   str ''Start date'' \<notin> set (columns df) \<and> find_pos (str ''timestamp'') (columns df) = Some i \<and>
   (k, r) \<in> set (rows df) \<and> cell_at r i = PyStr s \<and> conv (PyStr s) = None \<longrightarrow>
   clean_smard_df conv read_csv file_path =
     ([Print (str ''Processing '' @ file_path @ str ''...'')], Inl ValueError)"
  using clean_frame_bad_timestamp [of df i k r s conv] by (auto simp: clean_smard_df_def)

theorem unparseable_timestamp_raises_witness:
  "clean_smard_df
     (\<lambda>v. if v = PyStr (str ''2021-01-01 00:00'') then Some (Timestamp 2021 1 1 0 0) else None)
     (\<lambda>p. Inr \<lparr>columns = [str ''timestamp'', str ''Total''],
               rows = [(PyInt 0, [PyStr (str ''2021-01-01 00:00''), PyInt 1]),
                       (PyInt 1, [PyStr (str ''garbage''), PyInt 2])]\<rparr>) generation_csv =
   ([Print (str ''Processing ../data/generation.csv...'')], Inl ValueError)"
  using unparseable_timestamp_raises
    [of "\<lambda>p. Inr \<lparr>columns = [str ''timestamp'', str ''Total''],
               rows = [(PyInt 0, [PyStr (str ''2021-01-01 00:00''), PyInt 1]),
                       (PyInt 1, [PyStr (str ''garbage''), PyInt 2])]\<rparr>"
        generation_csv _ 0 "PyInt 1" "[PyStr (str ''garbage''), PyInt 2]" "str ''garbage''"
        "\<lambda>v. if v = PyStr (str ''2021-01-01 00:00'') then Some (Timestamp 2021 1 1 0 0) else None"]
  by (simp add: cell_at_def generation_csv_def data_dir_def str_def chr_def)


section \<open>Properties of the driver\<close>


lemma and_then_Inr: "and_then (out, Inr x) f = (out @ fst (f x), snd (f x))"
  by (simp add: and_then_def split: prod.splits)

lemma and_then_Inl: "and_then (out, Inl e) f = (out, Inl e)"
  by (simp add: and_then_def)

lemma clean_smard_df_unreadable:
  "read_csv file_path = Inl e \<Longrightarrow>
   clean_smard_df conv read_csv file_path =
     ([Print (str ''Processing '' @ file_path @ str ''...''),
       Print (str ''Error reading '' @ file_path @ str '': '' @ e)], Inr None)"
  by (simp add: clean_smard_df_def)

lemma fst_and_then: "set (fst m) \<subseteq> set (fst (and_then m f))"
  by (cases m) (auto simp: and_then_def split: sum.splits prod.splits)

lemma processing_printed:
  "Print (str ''Processing '' @ file_path @ str ''...'') \<in>
   set (fst (clean_smard_df conv read_csv file_path))"
  by (simp add: clean_smard_df_def split: sum.splits)

lemma processing_printed_step:
  "Print (str ''Processing '' @ file_path @ str ''...'') \<in>
   set (fst (and_then (and_then (clean_smard_df conv read_csv file_path) f) k))"
  by (rule subsetD [OF fst_and_then subsetD [OF fst_and_then processing_printed]])

text \<open>
  Claim C9. When reading a file fails, \<^verbatim>\<open>clean_smard_df\<close> prints the error with the
  file's name and returns \<^verbatim>\<open>None\<close>. The driver's step for that source prints these two
  lines, leaves the list of frames as it was and raises nothing, and the whole run is the
  run of the other steps around it: after a failed \<^verbatim>\<open>generation.csv\<close> the driver
  processes \<^verbatim>\<open>consumption.csv\<close>, and after a failed \<^verbatim>\<open>consumption.csv\<close> it processes
  \<^verbatim>\<open>prices.csv\<close>.
\<close>

theorem load_failure_skipped:
  "(read_csv file_path = Inl e \<longrightarrow>
      clean_smard_df conv read_csv file_path =
        ([Print (str ''Processing '' @ file_path @ str ''...''),
          Print (str ''Error reading '' @ file_path @ str '': '' @ e)], Inr None)) \<and>
   (read_csv generation_csv = Inl e \<longrightarrow>
      process_generation conv read_csv dfs =
        ([Print (str ''Processing '' @ generation_csv @ str ''...''),
          Print (str ''Error reading '' @ generation_csv @ str '': '' @ e)], Inr dfs)) \<and>
   (read_csv consumption_csv = Inl e \<longrightarrow>
      process_consumption conv read_csv dfs =
        ([Print (str ''Processing '' @ consumption_csv @ str ''...''),
          Print (str ''Error reading '' @ consumption_csv @ str '': '' @ e)], Inr dfs)) \<and>
   (read_csv prices_csv = Inl e \<longrightarrow>
      process_prices conv read_csv dfs =
        ([Print (str ''Processing '' @ prices_csv @ str ''...''),
          Print (str ''Error reading '' @ prices_csv @ str '': '' @ e)], Inr dfs)) \<and>
   (read_csv generation_csv = Inl e \<longrightarrow>
      run_pipeline conv read_csv =
        and_then ([Print (str ''Processing '' @ generation_csv @ str ''...''),
                   Print (str ''Error reading '' @ generation_csv @ str '': '' @ e)], Inr [])
          (\<lambda>dfs. and_then (process_consumption conv read_csv dfs)
             (\<lambda>dfs. and_then (process_prices conv read_csv dfs) merge_and_save))) \<and>
   (read_csv consumption_csv = Inl e \<longrightarrow>
      run_pipeline conv read_csv =
        and_then (process_generation conv read_csv [])
          (\<lambda>dfs. and_then ([Print (str ''Processing '' @ consumption_csv @ str ''...''),
                             Print (str ''Error reading '' @ consumption_csv @ str '': '' @ e)],
                            Inr dfs)
             (\<lambda>dfs. and_then (process_prices conv read_csv dfs) merge_and_save))) \<and>
   (read_csv prices_csv = Inl e \<longrightarrow>
      run_pipeline conv read_csv =
        and_then (process_generation conv read_csv [])
          (\<lambda>dfs. and_then (process_consumption conv read_csv dfs)
             (\<lambda>dfs. and_then ([Print (str ''Processing '' @ prices_csv @ str ''...''),
                                Print (str ''Error reading '' @ prices_csv @ str '': '' @ e)],
                               Inr dfs)
                merge_and_save))) \<and>
   (read_csv generation_csv = Inl e \<longrightarrow>
      Print (str ''Processing '' @ consumption_csv @ str ''...'') \<in>
        set (fst (run_pipeline conv read_csv))) \<and>
   (read_csv consumption_csv = Inl e \<and> snd (process_generation conv read_csv []) = Inr gen \<longrightarrow>
      Print (str ''Processing '' @ prices_csv @ str ''...'') \<in>
        set (fst (run_pipeline conv read_csv)))"
proof -
  let ?lines = "\<lambda>f. [Print (str ''Processing '' @ f @ str ''...''),
                     Print (str ''Error reading '' @ f @ str '': '' @ e)]"
  have g: "process_generation conv read_csv dfs = (?lines generation_csv, Inr dfs)"
    if "read_csv generation_csv = Inl e" for dfs
    using that by (simp add: clean_smard_df_unreadable process_generation_def and_then_Inr)
  have c: "process_consumption conv read_csv dfs = (?lines consumption_csv, Inr dfs)"
    if "read_csv consumption_csv = Inl e" for dfs
    using that by (simp add: clean_smard_df_unreadable process_consumption_def and_then_Inr)
  have p: "process_prices conv read_csv dfs = (?lines prices_csv, Inr dfs)"
    if "read_csv prices_csv = Inl e" for dfs
    using that by (simp add: clean_smard_df_unreadable process_prices_def and_then_Inr)
  have pc: "Print (str ''Processing '' @ consumption_csv @ str ''...'') \<in>
            set (fst (and_then (process_consumption conv read_csv ds) k))" for ds k
    unfolding process_consumption_def by (rule processing_printed_step)
  have pp: "Print (str ''Processing '' @ prices_csv @ str ''...'') \<in>
            set (fst (and_then (process_prices conv read_csv ds) k))" for ds k
    unfolding process_prices_def by (rule processing_printed_step)
  have 1: "clean_smard_df conv read_csv file_path = (?lines file_path, Inr None)"
    if "read_csv file_path = Inl e"
    using that by (rule clean_smard_df_unreadable)
  have 5: "run_pipeline conv read_csv =
        and_then (?lines generation_csv, Inr [])
          (\<lambda>dfs. and_then (process_consumption conv read_csv dfs)
             (\<lambda>dfs. and_then (process_prices conv read_csv dfs) merge_and_save))"
    if "read_csv generation_csv = Inl e"
    by (simp only: run_pipeline_def g [OF that])
  have 6: "run_pipeline conv read_csv =
        and_then (process_generation conv read_csv [])
          (\<lambda>dfs. and_then (?lines consumption_csv, Inr dfs)
             (\<lambda>dfs. and_then (process_prices conv read_csv dfs) merge_and_save))"
    if "read_csv consumption_csv = Inl e"
    by (simp only: run_pipeline_def c [OF that])
  have 7: "run_pipeline conv read_csv =
        and_then (process_generation conv read_csv [])
          (\<lambda>dfs. and_then (process_consumption conv read_csv dfs)
             (\<lambda>dfs. and_then (?lines prices_csv, Inr dfs) merge_and_save))"
    if "read_csv prices_csv = Inl e"
    by (simp only: run_pipeline_def p [OF that])
  have 8: "Print (str ''Processing '' @ consumption_csv @ str ''...'') \<in>
           set (fst (run_pipeline conv read_csv))"
    if "read_csv generation_csv = Inl e"
    unfolding 5 [OF that] and_then_Inr fst_conv set_append by (rule UnI2) (rule pc)
  have 9: "Print (str ''Processing '' @ prices_csv @ str ''...'') \<in>
           set (fst (run_pipeline conv read_csv))"
    if a: "read_csv consumption_csv = Inl e" "snd (process_generation conv read_csv []) = Inr gen"
  proof -
    obtain out where o: "process_generation conv read_csv [] = (out, Inr gen)"
      using a(2) by (cases "process_generation conv read_csv []") simp
    show ?thesis
      unfolding 6 [OF a(1)] o and_then_Inr fst_conv set_append
      by (rule UnI2, rule UnI2, rule pp)
  qed
  show ?thesis
    by (intro conjI impI; (elim conjE)?; (rule 1 g c p 5 6 7 8 9; assumption))
qed

theorem load_failure_skipped_witness:
  "run_pipeline (\<lambda>v. None) (\<lambda>p. Inl (str ''No such file'')) =
     ([Print (str ''Processing ../data/generation.csv...''),
       Print (str ''Error reading ../data/generation.csv: No such file''),
       Print (str ''Processing ../data/consumption.csv...''),
       Print (str ''Error reading ../data/consumption.csv: No such file''),
       Print (str ''Processing ../data/prices.csv...''),
       Print (str ''Error reading ../data/prices.csv: No such file''),
       Print (str ''No data processed.'')], Inr None) \<and>
   run_pipeline (\<lambda>v. None)
     (\<lambda>p. if p = consumption_csv
          then Inr \<lparr>columns = [str ''Start date'', str ''Grid load [MWh]''], rows = []\<rparr>
          else Inl (str ''No such file'')) =
     ([Print (str ''Processing ../data/generation.csv...''),
       Print (str ''Error reading ../data/generation.csv: No such file''),
       Print (str ''Processing ../data/consumption.csv...''),
       Print (str ''Processing ../data/prices.csv...''),
       Print (str ''Error reading ../data/prices.csv: No such file''),
       Print (str ''Merging datasets...''),
       Print (str ''Saved master dataset to ../data/energy_dataset_master.csv''),
       Print (str ''Master DataFrame Info:''),
       PrintInfo \<lparr>columns = [str ''Grid_Load''], rows = []\<rparr>,
       Print (0x0A # str ''Column names:''),
       PrintList [str ''Grid_Load'']],
      Inr (Some (str ''../data/energy_dataset_master.csv'',
                 \<lparr>columns = [str ''Grid_Load''], rows = []\<rparr>)))"
proof -
  let ?no = "\<lambda>p::pystr. (Inl (str ''No such file'') :: pystr + dataframe)"
  let ?df = "\<lparr>columns = [str ''Start date'', str ''Grid load [MWh]''], rows = []\<rparr>"
  let ?fs = "\<lambda>p. if p = consumption_csv then Inr ?df else Inl (str ''No such file'')"
  let ?lines = "\<lambda>f. [Print (str ''Processing '' @ f @ str ''...''),
                     Print (str ''Error reading '' @ f @ str '': '' @ str ''No such file'')]"
  have ne: "generation_csv \<noteq> consumption_csv" "prices_csv \<noteq> consumption_csv"
    by (simp_all add: generation_csv_def consumption_csv_def prices_csv_def str_def chr_def)
  have all: "run_pipeline (\<lambda>v. None) ?no =
     (?lines generation_csv @ ?lines consumption_csv @ ?lines prices_csv @
      [Print (str ''No data processed.'')], Inr None)"
    using load_failure_skipped [of ?no generation_csv "str ''No such file''" "\<lambda>v. None" "[]"]
    by (simp add: and_then_def merge_and_save_def)
  have g: "run_pipeline (\<lambda>v. None) ?fs =
           and_then (?lines generation_csv, Inr [])
             (\<lambda>dfs. and_then (process_consumption (\<lambda>v. None) ?fs dfs)
                (\<lambda>dfs. and_then (process_prices (\<lambda>v. None) ?fs dfs) merge_and_save))"
    using load_failure_skipped [of ?fs generation_csv "str ''No such file''" "\<lambda>v. None" "[]"] ne
    by simp
  have p: "process_prices (\<lambda>v. None) ?fs dfs = (?lines prices_csv, Inr dfs)" for dfs
    using load_failure_skipped [of ?fs prices_csv "str ''No such file''" "\<lambda>v. None" dfs] ne
    by simp
  have name: "clean_name (str ''Grid load [MWh]'') = str ''Grid_Load''"
    by (simp add: clean_name_def py_lower_def lower_cp_def str_def chr_def)
  have labels: "str ''Grid load [MWh]'' \<noteq> str ''Start date''"
    "str ''timestamp'' \<noteq> str ''Start date''" "str ''timestamp'' \<noteq> str ''Grid load [MWh]''"
    by (simp_all add: str_def chr_def)
  have "date_like (str ''Start date'')" "\<not> date_like (str ''Grid load [MWh]'')"
    "date_like (str ''timestamp'')"
    by (simp_all add: date_like_def py_lower_def lower_cp_def str_def chr_def)
  then have "clean_frame (\<lambda>v. None) ?df = Inr \<lparr>columns = [str ''Grid_Load''], rows = []\<rparr>"
    by (simp add: clean_frame_def add_timestamp_def getitem_def setitem_def dropna_def
        set_index_def remove_nth_def drop_columns_def select_by_def name labels Let_def)
  then have c: "process_consumption (\<lambda>v. None) ?fs [] =
           ([Print (str ''Processing '' @ consumption_csv @ str ''...'')],
            Inr [\<lparr>columns = [str ''Grid_Load''], rows = []\<rparr>])"
    by (simp add: process_consumption_def clean_smard_df_def and_then_def)
  have "run_pipeline (\<lambda>v. None) ?fs =
     (?lines generation_csv @
      [Print (str ''Processing '' @ consumption_csv @ str ''...'')] @
      ?lines prices_csv @
      [Print (str ''Merging datasets...''),
       Print (str ''Saved master dataset to '' @ output_path),
       Print (str ''Master DataFrame Info:''),
       PrintInfo \<lparr>columns = [str ''Grid_Load''], rows = []\<rparr>,
       Print (0x0A # str ''Column names:''),
       PrintList [str ''Grid_Load'']],
      Inr (Some (output_path, \<lparr>columns = [str ''Grid_Load''], rows = []\<rparr>)))"
    by (simp only: g c p and_then_Inr)
       (simp add: merge_and_save_def sort_index_def Let_def)
  then show ?thesis using all
    by (simp add: generation_csv_def consumption_csv_def prices_csv_def output_path_def
        data_dir_def str_def)
qed

section \<open>Properties of the merge\<close>


lemma join_inner_overlap:
  "c \<in> set (columns l) \<Longrightarrow> c \<in> set (columns r) \<Longrightarrow> join_inner l r = Inl ValueError"
  by (auto simp: join_inner_def list_ex_iff)

lemma join_inner_error: "join_inner l r = Inl e \<Longrightarrow> e = ValueError"
  by (auto simp: join_inner_def split: if_splits)

lemma join_inner_disjoint:
  "set (columns l) \<inter> set (columns r) = {} \<Longrightarrow> \<exists>m. join_inner l r = Inr m"
  by (auto simp: join_inner_def list_ex_iff)

lemma join_inner_columns: "join_inner l r = Inr m \<Longrightarrow> columns m = columns l @ columns r"
  by (auto simp: join_inner_def split: if_splits)

lemma join_inner_rows:
  "join_inner l r = Inr m \<Longrightarrow>
   (k, x) \<in> set (rows m) \<longleftrightarrow>
   (\<exists>a b. (k, a) \<in> set (rows l) \<and> (k, b) \<in> set (rows r) \<and> x = a @ b)"
proof -
  assume "join_inner l r = Inr m"
  then have rows: "rows m = concat (map (\<lambda>(k, a). map (\<lambda>(k', b). (k, a @ b))
                                    (filter (\<lambda>(k', b). k' = k) (rows r))) (rows l))"
    by (auto simp: join_inner_def split: if_splits)
  show ?thesis
  proof
    assume "(k, x) \<in> set (rows m)"
    then show "\<exists>a b. (k, a) \<in> set (rows l) \<and> (k, b) \<in> set (rows r) \<and> x = a @ b"
      unfolding rows by auto
  next
    assume "\<exists>a b. (k, a) \<in> set (rows l) \<and> (k, b) \<in> set (rows r) \<and> x = a @ b"
    then obtain a b where ab: "(k, a) \<in> set (rows l)" "(k, b) \<in> set (rows r)" "x = a @ b"
      by blast
    have "(k, a @ b) \<in> set (map (\<lambda>(k', b). (k, a @ b)) (filter (\<lambda>(k', b). k' = k) (rows r)))"
      using ab(2) by force
    then show "(k, x) \<in> set (rows m)"
      unfolding rows using ab(1,3) by force
  qed
qed

lemma join_all_error: "join_all d ds = Inl e \<Longrightarrow> e = ValueError"
  by (induction ds arbitrary: d) (auto split: sum.splits dest: join_inner_error)

lemma join_all_columns:
  "join_all d ds = Inr m \<Longrightarrow> columns m = concat (map columns (d # ds))"
proof (induction ds arbitrary: d)
  case Nil
  then show ?case by simp
next
  case (Cons t ts)
  then obtain m' where m': "join_inner d t = Inr m'" "join_all m' ts = Inr m"
    by (auto split: sum.splits)
  then show ?case using Cons.IH [of m'] join_inner_columns [of d t m'] by simp
qed

lemma join_all_rows:
  "join_all d ds = Inr m \<Longrightarrow>
   (k, x) \<in> set (rows m) \<longleftrightarrow>
   (\<exists>a bs. (k, a) \<in> set (rows d) \<and> list_all2 (\<lambda>b t. (k, b) \<in> set (rows t)) bs ds \<and>
            x = a @ concat bs)"
proof (induction ds arbitrary: d x)
  case Nil
  then show ?case by auto
next
  case (Cons t ts)
  then obtain m' where m': "join_inner d t = Inr m'" "join_all m' ts = Inr m"
    by (auto split: sum.splits)
  have "(k, x) \<in> set (rows m) \<longleftrightarrow>
        (\<exists>a' bs. (k, a') \<in> set (rows m') \<and> list_all2 (\<lambda>b t. (k, b) \<in> set (rows t)) bs ts \<and>
                 x = a' @ concat bs)"
    using Cons.IH [OF m'(2)] .
  also have "\<dots> \<longleftrightarrow>
        (\<exists>a b bs. (k, a) \<in> set (rows d) \<and> (k, b) \<in> set (rows t) \<and>
                 list_all2 (\<lambda>b t. (k, b) \<in> set (rows t)) bs ts \<and> x = (a @ b) @ concat bs)"
    using join_inner_rows [OF m'(1)] by blast
  also have "\<dots> \<longleftrightarrow>
        (\<exists>a bs. (k, a) \<in> set (rows d) \<and> list_all2 (\<lambda>b t. (k, b) \<in> set (rows t)) bs (t # ts) \<and>
                 x = a @ concat bs)"
  proof
    assume "\<exists>a b bs. (k, a) \<in> set (rows d) \<and> (k, b) \<in> set (rows t) \<and>
                 list_all2 (\<lambda>b t. (k, b) \<in> set (rows t)) bs ts \<and> x = (a @ b) @ concat bs"
    then obtain a b bs where h: "(k, a) \<in> set (rows d)" "(k, b) \<in> set (rows t)"
      "list_all2 (\<lambda>b t. (k, b) \<in> set (rows t)) bs ts" "x = (a @ b) @ concat bs" by blast
    have "list_all2 (\<lambda>b t. (k, b) \<in> set (rows t)) (b # bs) (t # ts)" using h(2,3) by simp
    moreover have "x = a @ concat (b # bs)" using h(4) by simp
    ultimately show "\<exists>a bs. (k, a) \<in> set (rows d) \<and>
        list_all2 (\<lambda>b t. (k, b) \<in> set (rows t)) bs (t # ts) \<and> x = a @ concat bs"
      using h(1) by blast
  next
    assume "\<exists>a bs. (k, a) \<in> set (rows d) \<and>
        list_all2 (\<lambda>b t. (k, b) \<in> set (rows t)) bs (t # ts) \<and> x = a @ concat bs"
    then obtain a bs where h: "(k, a) \<in> set (rows d)"
      "list_all2 (\<lambda>b t. (k, b) \<in> set (rows t)) bs (t # ts)" "x = a @ concat bs" by blast
    from h(2) obtain b bs' where b: "bs = b # bs'" "(k, b) \<in> set (rows t)"
      "list_all2 (\<lambda>b t. (k, b) \<in> set (rows t)) bs' ts" by (auto simp: list_all2_Cons2)
    have "x = (a @ b) @ concat bs'" using h(3) b(1) by simp
    then show "\<exists>a b bs. (k, a) \<in> set (rows d) \<and> (k, b) \<in> set (rows t) \<and>
                 list_all2 (\<lambda>b t. (k, b) \<in> set (rows t)) bs ts \<and> x = (a @ b) @ concat bs"
      using h(1) b(2,3) by blast
  qed
  finally show ?case .
qed

lemma all_have_key:
  "(\<forall>t\<in>set ds. k \<in> set (index t)) \<longleftrightarrow>
   (\<exists>bs. list_all2 (\<lambda>b t. (k, b) \<in> set (rows t)) bs ds)"
proof (induction ds)
  case Nil
  then show ?case by simp
next
  case (Cons t ts)
  have "k \<in> set (index t) \<longleftrightarrow> (\<exists>b. (k, b) \<in> set (rows t))"
    by (force simp: index_def)
  then show ?case using Cons by (auto simp: list_all2_Cons2)
qed

lemma join_all_index:
  assumes "join_all d ds = Inr m"
  shows "set (index m) = (\<Inter>t\<in>set (d # ds). set (index t))"
proof -
  have "k \<in> set (index m) \<longleftrightarrow> (\<forall>t\<in>set (d # ds). k \<in> set (index t))" for k
  proof -
    have "k \<in> set (index m) \<longleftrightarrow> (\<exists>x. (k, x) \<in> set (rows m))"
      by (force simp: index_def)
    also have "\<dots> \<longleftrightarrow> (\<exists>a. (k, a) \<in> set (rows d)) \<and>
                        (\<exists>bs. list_all2 (\<lambda>b t. (k, b) \<in> set (rows t)) bs ds)"
      using join_all_rows [OF assms] by blast
    also have "\<dots> \<longleftrightarrow> k \<in> set (index d) \<and> (\<forall>t\<in>set ds. k \<in> set (index t))"
      using all_have_key [of ds k] by (force simp: index_def)
    finally show ?thesis by simp
  qed
  then show ?thesis by auto
qed

lemma join_all_overlap:
  assumes "c \<in> set (columns (ds ! j))" "j < length ds"
    and "c \<in> set (columns d) \<or> (\<exists>i<j. c \<in> set (columns (ds ! i)))"
  shows "join_all d ds = Inl ValueError"
  using assms
proof (induction ds arbitrary: d j)
  case Nil
  then show ?case by simp
next
  case (Cons t ts)
  show ?case
  proof (cases "join_inner d t")
    case (Inl e)
    then show ?thesis using join_inner_error [of d t e] by simp
  next
    case (Inr m')
    have cols: "columns m' = columns d @ columns t" using Inr by (rule join_inner_columns)
    show ?thesis
    proof (cases j)
      case 0
      then have "c \<in> set (columns d)" "c \<in> set (columns t)" using Cons.prems by auto
      then show ?thesis using join_inner_overlap [of c d t] Inr by simp
    next
      case (Suc j')
      have 1: "c \<in> set (columns (ts ! j'))" "j' < length ts" using Cons.prems Suc by auto
      have 2: "c \<in> set (columns m') \<or> (\<exists>i<j'. c \<in> set (columns (ts ! i)))"
      proof -
        from Cons.prems(3) show ?thesis
        proof
          assume "c \<in> set (columns d)"
          then show ?thesis using cols by simp
        next
          assume "\<exists>i<j. c \<in> set (columns ((t # ts) ! i))"
          then obtain i where i: "i < j" "c \<in> set (columns ((t # ts) ! i))" by auto
          show ?thesis
          proof (cases i)
            case 0
            then show ?thesis using i cols by simp
          next
            case (Suc i')
            then show ?thesis using i \<open>j = Suc j'\<close> by auto
          qed
        qed
      qed
      show ?thesis using Cons.IH [OF 1 2] Inr by simp
    qed
  qed
qed

lemma join_all_disjoint:
  "distinct (concat (map columns (d # ds))) \<Longrightarrow> \<exists>m. join_all d ds = Inr m"
proof (induction ds arbitrary: d)
  case Nil
  then show ?case by simp
next
  case (Cons t ts)
  have "set (columns d) \<inter> set (columns t) = {}" using Cons.prems by auto
  then obtain m' where m': "join_inner d t = Inr m'" using join_inner_disjoint by blast
  have "columns m' = columns d @ columns t" using m' by (rule join_inner_columns)
  then have "distinct (concat (map columns (m' # ts)))" using Cons.prems by simp
  then show ?case using Cons.IH [of m'] m' by simp
qed

lemma join_all_pairwise:
  "(\<forall>i j. i < j \<and> j < length (d # ds) \<longrightarrow>
      set (columns ((d # ds) ! i)) \<inter> set (columns ((d # ds) ! j)) = {}) \<Longrightarrow>
   \<exists>m. join_all d ds = Inr m"
proof (induction ds arbitrary: d)
  case Nil
  then show ?case by simp
next
  case (Cons t ts)
  have dt: "set (columns d) \<inter> set (columns t) = {}"
    using Cons.prems [rule_format, of 0 1] by simp
  then obtain m' where m': "join_inner d t = Inr m'" using join_inner_disjoint by blast
  have cols: "columns m' = columns d @ columns t" using m' by (rule join_inner_columns)
  have "set (columns ((m' # ts) ! i)) \<inter> set (columns ((m' # ts) ! j)) = {}"
    if ij: "i < j \<and> j < length (m' # ts)" for i j
  proof (cases i)
    case 0
    then obtain j' where j': "j = Suc j'" using ij by (cases j) auto
    have "set (columns d) \<inter> set (columns (ts ! j')) = {}"
      using Cons.prems [rule_format, of 0 "Suc (Suc j')"] ij j' by simp
    moreover have "set (columns t) \<inter> set (columns (ts ! j')) = {}"
      using Cons.prems [rule_format, of 1 "Suc (Suc j')"] ij j' by simp
    ultimately show ?thesis using 0 j' cols by auto
  next
    case (Suc i')
    then obtain j' where j': "j = Suc j'" using ij by (cases j) auto
    show ?thesis
      using Cons.prems [rule_format, of "Suc (Suc i')" "Suc (Suc j')"] ij Suc j' by simp
  qed
  then show ?case using Cons.IH [of m'] m' by simp
qed

lemma sort_index_simps:
  "columns (sort_index m) = columns m"
  "set (rows (sort_index m)) = set (rows m)"
  "set (index (sort_index m)) = set (index m)"
  by (simp_all add: sort_index_def index_def)

lemma merge_and_save_Cons:
  "merge_and_save (d # ds) = (out, Inr res) \<longleftrightarrow>
   (\<exists>m. join_all d ds = Inr m \<and> res = Some (output_path, sort_index m) \<and>
        out = [Print (str ''Merging datasets...''),
               Print (str ''Saved master dataset to '' @ output_path),
               Print (str ''Master DataFrame Info:''),
               PrintInfo (sort_index m),
               Print (0x0A # str ''Column names:''),
               PrintList (columns (sort_index m))])"
  by (auto simp: merge_and_save_def Let_def split: sum.splits)

text \<open>
  Claim C2. The claim is made for every nonempty list of tables. For a list of tables no
  two of which share a column label the driver produces the merge, and the table merged
  has exactly the keys that every table has, and the columns of all the tables in order;
  each of its rows is, for one key, a row of every table under that key, side by side.
  Where two tables share a label the join raises and there is no merged table
  (\<open>merge_shared_label_counterexample\<close> below).
\<close>

theorem merge_is_intersection:
  "(merge_and_save (d # ds) = (out, Inr (Some (path, master))) \<longrightarrow>
      set (index master) = (\<Inter>t\<in>set (d # ds). set (index t)) \<and>
      columns master = concat (map columns (d # ds)) \<and>
      (\<forall>k x. (k, x) \<in> set (rows master) \<longleftrightarrow>
             (\<exists>a bs. (k, a) \<in> set (rows d) \<and>
                     list_all2 (\<lambda>b t. (k, b) \<in> set (rows t)) bs ds \<and> x = a @ concat bs))) \<and>
   ((\<forall>i j. i < j \<and> j < length (d # ds) \<longrightarrow>
       set (columns ((d # ds) ! i)) \<inter> set (columns ((d # ds) ! j)) = {}) \<longrightarrow>
    (\<exists>out master. merge_and_save (d # ds) = (out, Inr (Some (output_path, master)))))"
proof (intro conjI impI)
  assume "merge_and_save (d # ds) = (out, Inr (Some (path, master)))"
  then obtain m where m: "join_all d ds = Inr m" "master = sort_index m"
    unfolding merge_and_save_Cons by auto
  show "set (index master) = (\<Inter>t\<in>set (d # ds). set (index t))"
    using join_all_index [OF m(1)] m(2) by (simp only: sort_index_simps)
  show "columns master = concat (map columns (d # ds))"
    using join_all_columns [OF m(1)] m(2) by (simp only: sort_index_simps)
  show "\<forall>k x. (k, x) \<in> set (rows master) \<longleftrightarrow>
             (\<exists>a bs. (k, a) \<in> set (rows d) \<and>
                     list_all2 (\<lambda>b t. (k, b) \<in> set (rows t)) bs ds \<and> x = a @ concat bs)"
    using join_all_rows [OF m(1)] m(2) by (simp only: sort_index_simps) blast
next
  assume "\<forall>i j. i < j \<and> j < length (d # ds) \<longrightarrow>
       set (columns ((d # ds) ! i)) \<inter> set (columns ((d # ds) ! j)) = {}"
  then obtain m where "join_all d ds = Inr m" using join_all_pairwise by blast
  then show "\<exists>out master. merge_and_save (d # ds) = (out, Inr (Some (output_path, master)))"
    by (simp add: merge_and_save_def Let_def)
qed

theorem merge_is_intersection_witness:
  "merge_and_save
     [\<lparr>columns = [str ''Total''],
        rows = [(PyTimestamp (Timestamp 2021 1 1 0 0), [PyFloat (Finite 1)]),
                (PyTimestamp (Timestamp 2021 1 1 1 0), [PyFloat (Finite 2)]),
                (PyTimestamp (Timestamp 2021 1 1 2 0), [PyFloat (Finite 3)])]\<rparr>,
      \<lparr>columns = [str ''Grid_Load''],
        rows = [(PyTimestamp (Timestamp 2021 1 1 3 0), [PyFloat (Finite 40)]),
                (PyTimestamp (Timestamp 2021 1 1 2 0), [PyFloat (Finite 30)]),
                (PyTimestamp (Timestamp 2021 1 1 1 0), [PyFloat (Finite 20)])]\<rparr>] =
   ([Print (str ''Merging datasets...''),
     Print (str ''Saved master dataset to ../data/energy_dataset_master.csv''),
     Print (str ''Master DataFrame Info:''),
     PrintInfo
       \<lparr>columns = [str ''Total'', str ''Grid_Load''],
         rows = [(PyTimestamp (Timestamp 2021 1 1 1 0), [PyFloat (Finite 2), PyFloat (Finite 20)]),
                 (PyTimestamp (Timestamp 2021 1 1 2 0), [PyFloat (Finite 3), PyFloat (Finite 30)])]\<rparr>,
     Print (0x0A # str ''Column names:''),
     PrintList [str ''Total'', str ''Grid_Load'']],
    Inr (Some (str ''../data/energy_dataset_master.csv'',
       \<lparr>columns = [str ''Total'', str ''Grid_Load''],
         rows = [(PyTimestamp (Timestamp 2021 1 1 1 0), [PyFloat (Finite 2), PyFloat (Finite 20)]),
                 (PyTimestamp (Timestamp 2021 1 1 2 0), [PyFloat (Finite 3), PyFloat (Finite 30)])]\<rparr>))) \<and>
   set (index
       \<lparr>columns = [str ''Total'', str ''Grid_Load''],
         rows = [(PyTimestamp (Timestamp 2021 1 1 1 0), [PyFloat (Finite 2), PyFloat (Finite 20)]),
                 (PyTimestamp (Timestamp 2021 1 1 2 0), [PyFloat (Finite 3), PyFloat (Finite 30)])]\<rparr>) =
   {PyTimestamp (Timestamp 2021 1 1 1 0), PyTimestamp (Timestamp 2021 1 1 2 0)} \<and>
   set (index
       \<lparr>columns = [str ''Total''],
        rows = [(PyTimestamp (Timestamp 2021 1 1 0 0), [PyFloat (Finite 1)]),
                (PyTimestamp (Timestamp 2021 1 1 1 0), [PyFloat (Finite 2)]),
                (PyTimestamp (Timestamp 2021 1 1 2 0), [PyFloat (Finite 3)])]\<rparr>) \<inter>
   set (index
      \<lparr>columns = [str ''Grid_Load''],
        rows = [(PyTimestamp (Timestamp 2021 1 1 3 0), [PyFloat (Finite 40)]),
                (PyTimestamp (Timestamp 2021 1 1 2 0), [PyFloat (Finite 30)]),
                (PyTimestamp (Timestamp 2021 1 1 1 0), [PyFloat (Finite 20)])]\<rparr>) =
   {PyTimestamp (Timestamp 2021 1 1 1 0), PyTimestamp (Timestamp 2021 1 1 2 0)}"
proof -
  let ?A = "\<lparr>columns = [str ''Total''],
        rows = [(PyTimestamp (Timestamp 2021 1 1 0 0), [PyFloat (Finite 1)]),
                (PyTimestamp (Timestamp 2021 1 1 1 0), [PyFloat (Finite 2)]),
                (PyTimestamp (Timestamp 2021 1 1 2 0), [PyFloat (Finite 3)])]\<rparr>"
  let ?B = "\<lparr>columns = [str ''Grid_Load''],
        rows = [(PyTimestamp (Timestamp 2021 1 1 3 0), [PyFloat (Finite 40)]),
                (PyTimestamp (Timestamp 2021 1 1 2 0), [PyFloat (Finite 30)]),
                (PyTimestamp (Timestamp 2021 1 1 1 0), [PyFloat (Finite 20)])]\<rparr>"
  let ?M = "\<lparr>columns = [str ''Total'', str ''Grid_Load''],
         rows = [(PyTimestamp (Timestamp 2021 1 1 1 0), [PyFloat (Finite 2), PyFloat (Finite 20)]),
                 (PyTimestamp (Timestamp 2021 1 1 2 0), [PyFloat (Finite 3), PyFloat (Finite 30)])]\<rparr>"
  let ?out = "[Print (str ''Merging datasets...''),
     Print (str ''Saved master dataset to '' @ output_path),
     Print (str ''Master DataFrame Info:''), PrintInfo ?M,
     Print (0x0A # str ''Column names:''), PrintList [str ''Total'', str ''Grid_Load'']]"
  have run: "merge_and_save [?A, ?B] = (?out, Inr (Some (output_path, ?M)))"
    by (simp add: merge_and_save_def join_inner_def sort_index_def index_rank_def ts_rank_def Let_def
        str_def chr_def)
  have "set (index ?M) = (\<Inter>t\<in>set [?A, ?B]. set (index t))"
    using merge_is_intersection [of ?A "[?B]" ?out output_path ?M] run by blast
  then show ?thesis using run
    by (simp add: output_path_def data_dir_def str_def) (simp add: index_def)
qed

text \<open>
  Two tables with the key sets of the specification's example, \<open>{t1, t2, t3}\<close> and
  \<open>{t2, t3, t4}\<close>, that both carry the label \<^verbatim>\<open>Residual_Load\<close>: the keys \<open>t2\<close> and
  \<open>t3\<close> are in both, and the driver ends with \<^verbatim>\<open>ValueError\<close> instead of a merged table.
\<close>

theorem merge_shared_label_counterexample:
  "set (index \<lparr>columns = [str ''Residual_Load''],
        rows = [(PyTimestamp (Timestamp 2021 1 1 0 0), [PyFloat (Finite 1)]),
                (PyTimestamp (Timestamp 2021 1 1 1 0), [PyFloat (Finite 2)]),
                (PyTimestamp (Timestamp 2021 1 1 2 0), [PyFloat (Finite 3)])]\<rparr>) \<inter>
   set (index \<lparr>columns = [str ''Grid_Load'', str ''Residual_Load''],
        rows = [(PyTimestamp (Timestamp 2021 1 1 1 0), [PyFloat (Finite 20), PyFloat (Finite 2)]),
                (PyTimestamp (Timestamp 2021 1 1 2 0), [PyFloat (Finite 30), PyFloat (Finite 3)]),
                (PyTimestamp (Timestamp 2021 1 1 3 0), [PyFloat (Finite 40), PyFloat (Finite 4)])]\<rparr>) =
   {PyTimestamp (Timestamp 2021 1 1 1 0), PyTimestamp (Timestamp 2021 1 1 2 0)} \<and>
   merge_and_save
     [\<lparr>columns = [str ''Residual_Load''],
        rows = [(PyTimestamp (Timestamp 2021 1 1 0 0), [PyFloat (Finite 1)]),
                (PyTimestamp (Timestamp 2021 1 1 1 0), [PyFloat (Finite 2)]),
                (PyTimestamp (Timestamp 2021 1 1 2 0), [PyFloat (Finite 3)])]\<rparr>,
      \<lparr>columns = [str ''Grid_Load'', str ''Residual_Load''],
        rows = [(PyTimestamp (Timestamp 2021 1 1 1 0), [PyFloat (Finite 20), PyFloat (Finite 2)]),
                (PyTimestamp (Timestamp 2021 1 1 2 0), [PyFloat (Finite 30), PyFloat (Finite 3)]),
                (PyTimestamp (Timestamp 2021 1 1 3 0), [PyFloat (Finite 40), PyFloat (Finite 4)])]\<rparr>] =
   ([Print (str ''Merging datasets...'')], Inl ValueError)"
  by (simp add: merge_and_save_def join_inner_def index_def)

text \<open>
  Claim C4. The claim says that a column label shared by two tables is resolved by
  letting the later table win. The join is called with no suffixes, and pandas raises
  \<^verbatim>\<open>ValueError\<close> (columns overlap but no suffix specified) when both frames carry a
  label: the merge ends with that exception, for two tables and for any longer list in
  which two tables share a label.
\<close>

theorem column_collision_counterexample:
  "merge_and_save
     [\<lparr>columns = [str ''Total''],
        rows = [(PyTimestamp (Timestamp 2021 1 1 0 0), [PyFloat (Finite 1)])]\<rparr>,
      \<lparr>columns = [str ''Total''],
        rows = [(PyTimestamp (Timestamp 2021 1 1 0 0), [PyFloat (Finite 2)])]\<rparr>] =
   ([Print (str ''Merging datasets...'')], Inl ValueError)"
  by (simp add: merge_and_save_def join_inner_def)

theorem column_collision_raises:
  "i < j \<and> j < length dfs \<and> c \<in> set (columns (dfs ! i)) \<and> c \<in> set (columns (dfs ! j)) \<longrightarrow>
   merge_and_save dfs = ([Print (str ''Merging datasets...'')], Inl ValueError)"
proof (intro impI, elim conjE)
  assume a: "i < j" "j < length dfs" "c \<in> set (columns (dfs ! i))" "c \<in> set (columns (dfs ! j))"
  then obtain d ds where dfs: "dfs = d # ds" by (cases dfs) auto
  obtain j' where j': "j = Suc j'" using a(1) by (cases j) auto
  have 1: "c \<in> set (columns (ds ! j'))" "j' < length ds" using a dfs j' by auto
  have 2: "c \<in> set (columns d) \<or> (\<exists>i'<j'. c \<in> set (columns (ds ! i')))"
  proof (cases i)
    case 0
    then show ?thesis using a(3) dfs by simp
  next
    case (Suc i')
    then show ?thesis using a(1,3) dfs j' by auto
  qed
  have "join_all d ds = Inl ValueError" using 1 2 by (rule join_all_overlap)
  then show "merge_and_save dfs = ([Print (str ''Merging datasets...'')], Inl ValueError)"
    using dfs by (simp add: merge_and_save_def)
qed

theorem column_collision_raises_witness:
  "merge_and_save
     [\<lparr>columns = [str ''Total'', str ''Other''], rows = []\<rparr>,
      \<lparr>columns = [str ''Grid_Load''], rows = []\<rparr>,
      \<lparr>columns = [str ''Day_Ahead_Price'', str ''Other''], rows = []\<rparr>] =
   ([Print (str ''Merging datasets...'')], Inl ValueError)"
  using column_collision_raises
    [of 0 2 "[\<lparr>columns = [str ''Total'', str ''Other''], rows = []\<rparr>,
              \<lparr>columns = [str ''Grid_Load''], rows = []\<rparr>,
              \<lparr>columns = [str ''Day_Ahead_Price'', str ''Other''], rows = []\<rparr>]" "str ''Other''"]
  by simp

section \<open>Examples\<close>

lemmas text_eval = str_def chr_def py_lower_def lower_cp_def py_strip_def strip_with_def
  is_space_def py_replace_def euro_sign_def

lemmas strptime_eval =
  strptime_smard_def month_names_def skip_spaces_def day_token_def hour_token_def
  minute_token_def year_token_def in_range_def is_decimal_def decimal_of_def
  decimal_value_def decimal_zeros_def digit_val_def expect_char_def days_in_month_def
  is_leap_def Let_def text_eval

lemma strptime_example:
  "strptime_smard (str ''Jan 1, 2021 12:00 AM'') = Some (Timestamp 2021 1 1 0 0)"
  by (simp add: strptime_eval)

lemma strptime_garbage: "strptime_smard (str ''garbage'') = None"
  by (simp add: strptime_eval)

lemma clean_name_examples:
  "clean_name (str ''Total [MWh] Calculated resolutions'') = str ''Total''"
  "clean_name (str ''Volume'') = str ''Volume''"
  "clean_name (str ''Price ['' @ euro_sign @ str ''/MWh]'') = str ''Price''"
  "clean_name (str ''Deutschland/Luxemburg ['' @ euro_sign @ str ''/MWh] Calculated resolutions'') =
   str ''Deutschland/Luxemburg''"
  "clean_name (str ''Deutschland/Austria/Luxemburg ['' @ euro_sign @ str ''/MWh] Calculated resolutions'') =
   str ''Deutschland/Austria/Luxemburg''"
  by (simp_all add: clean_name_def text_eval)

lemma date_like_examples:
  "date_like (str ''Start date'')" "date_like (str ''End date'')" "date_like (str ''timestamp'')"
  "\<not> date_like (str ''Total [MWh] Calculated resolutions'')"
  "\<not> date_like (str ''Volume'')"
  "\<not> date_like (str ''Price ['' @ euro_sign @ str ''/MWh]'')"
  "\<not> date_like (str ''Deutschland/Luxemburg ['' @ euro_sign @ str ''/MWh] Calculated resolutions'')"
  "\<not> date_like (str ''Deutschland/Austria/Luxemburg ['' @ euro_sign @ str ''/MWh] Calculated resolutions'')"
  by (simp_all add: date_like_def text_eval)

lemmas frame_eval =
  clean_frame_def add_timestamp_def getitem_def setitem_def dropna_def set_index_def
  remove_nth_def drop_columns_def select_by_def cell_at_def to_datetime_coerce_def Let_def
  is_str_def

lemma start_date_example:
  "clean_frame conv
     \<lparr>columns = [str ''Start date'', str ''End date'', str ''Total [MWh] Calculated resolutions''],
       rows = [(PyInt 0, [PyStr (str ''Jan 1, 2021 12:00 AM''), PyStr (str ''Jan 1, 2021 1:00 AM''),
                          PyFloat (Finite 5)]),
               (PyInt 1, [PyStr (str ''garbage''), PyStr (str ''garbage''), PyFloat (Finite 6)])]\<rparr> =
   Inr \<lparr>columns = [str ''Total''],
         rows = [(PyTimestamp (Timestamp 2021 1 1 0 0), [PyFloat (Finite 5)])]\<rparr>"
proof -
  have ne: "str ''Start date'' \<noteq> str ''timestamp''" "str ''End date'' \<noteq> str ''timestamp''"
    "str ''Total [MWh] Calculated resolutions'' \<noteq> str ''timestamp''"
    "str ''Start date'' \<noteq> str ''End date''"
    "str ''Start date'' \<noteq> str ''Total [MWh] Calculated resolutions''"
    "str ''End date'' \<noteq> str ''Total [MWh] Calculated resolutions''"
    by (simp_all add: str_def chr_def)
  show ?thesis
    using ne
    by (simp add: frame_eval strptime_example strptime_garbage date_like_examples
        clean_name_examples)
qed


section \<open>Properties of header canonicalization\<close>


lemma py_split_head:
  "(case py_split sep s of [] \<Rightarrow> [] | p # ps \<Rightarrow> p) = takeWhile (\<lambda>c. c \<noteq> sep) s"
  by (induction s) (auto split: list.splits)

lemma starts_with_take: "starts_with p s \<longleftrightarrow> take (length p) s = p"
  by (induction p s rule: starts_with.induct) auto

lemma py_in_slice: "py_in n s \<longleftrightarrow> (\<exists>i\<le>length s. take (length n) (drop i s) = n)"
proof (induction s)
  case Nil
  then show ?case by auto
next
  case (Cons c cs)
  have "(\<exists>i\<le>length (c # cs). take (length n) (drop i (c # cs)) = n) \<longleftrightarrow>
        take (length n) (c # cs) = n \<or> (\<exists>i\<le>length cs. take (length n) (drop i cs) = n)"
  proof
    assume "\<exists>i\<le>length (c # cs). take (length n) (drop i (c # cs)) = n"
    then obtain i where i: "i \<le> length (c # cs)" "take (length n) (drop i (c # cs)) = n" by blast
    show "take (length n) (c # cs) = n \<or> (\<exists>i\<le>length cs. take (length n) (drop i cs) = n)"
    proof (cases i)
      case 0
      then show ?thesis using i by simp
    next
      case (Suc j)
      then show ?thesis using i by auto
    qed
  next
    assume "take (length n) (c # cs) = n \<or> (\<exists>i\<le>length cs. take (length n) (drop i cs) = n)"
    then show "\<exists>i\<le>length (c # cs). take (length n) (drop i (c # cs)) = n"
    proof
      assume "take (length n) (c # cs) = n"
      then have "take (length n) (drop 0 (c # cs)) = n" by simp
      then show ?thesis by blast
    next
      assume "\<exists>i\<le>length cs. take (length n) (drop i cs) = n"
      then obtain i where "i \<le> length cs" "take (length n) (drop i cs) = n" by blast
      then have "Suc i \<le> length (c # cs)" "take (length n) (drop (Suc i) (c # cs)) = n" by simp_all
      then show ?thesis by blast
    qed
  qed
  then show ?case using Cons by (simp add: starts_with_take)
qed

lemma py_in_append: "py_in n s \<longleftrightarrow> (\<exists>a b. s = a @ n @ b)"
proof
  assume "py_in n s"
  then obtain i where i: "i \<le> length s" "take (length n) (drop i s) = n"
    unfolding py_in_slice by blast
  have "s = take i s @ drop i s" by simp
  also have "drop i s = take (length n) (drop i s) @ drop (length n) (drop i s)"
    by (simp only: append_take_drop_id)
  finally have "s = take i s @ n @ drop (length n) (drop i s)" using i(2) by simp
  then show "\<exists>a b. s = a @ n @ b" by blast
next
  assume "\<exists>a b. s = a @ n @ b"
  then obtain a b where "s = a @ n @ b" by blast
  then have "length a \<le> length s" "take (length n) (drop (length a) s) = n" by simp_all
  then show "py_in n s" unfolding py_in_slice by blast
qed

lemma contains_ci_py_in:
  "py_lower n = n \<Longrightarrow> contains_ci n h = py_in n (py_lower h)"
proof -
  assume n: "py_lower n = n"
  have "contains_ci n h \<longleftrightarrow>
        (\<exists>i\<le>length h. py_lower (take (length n) (drop i h)) = py_lower n)"
    unfolding contains_ci_def list_ex_iff set_upt Bex_def atLeastLessThan_iff less_Suc_eq_le
    by simp
  also have "\<dots> \<longleftrightarrow> (\<exists>i\<le>length (py_lower h). take (length n) (drop i (py_lower h)) = n)"
    using n by (simp add: py_lower_def take_map drop_map)
  finally show ?thesis by (simp add: py_in_slice)
qed

lemma clean_name_canonical: "clean_name header = canonical_name header"
proof -
  have low: "py_lower (str ''residual'') = str ''residual''" "py_lower (str ''grid load'') = str ''grid load''"
    "py_lower (str ''grid_load'') = str ''grid_load''"
    by (simp_all add: py_lower_def lower_cp_def str_def chr_def)
  show ?thesis
    by (auto simp: clean_name_def canonical_name_def rename_rules_def generic_cleanup_def
        py_split_head contains_ci_py_in [OF low(1)] contains_ci_py_in [OF low(2)]
        contains_ci_py_in [OF low(3)] Let_def)
qed


lemma py_replace_single:
  "py_replace old [new] s = map (\<lambda>c. if c = old then new else c) s"
  by (induction s) (simp_all add: py_replace_def)

lemma last_dropWhile: "dropWhile P xs \<noteq> [] \<Longrightarrow> last (dropWhile P xs) = last xs"
  by (induction xs) (auto split: if_splits)

lemma py_strip_ends:
  "py_strip s \<noteq> [] \<Longrightarrow> \<not> is_space (hd (py_strip s)) \<and> \<not> is_space (last (py_strip s))"
proof -
  let ?u = "dropWhile is_space s"
  let ?v = "dropWhile is_space (rev ?u)"
  assume "py_strip s \<noteq> []"
  then have v: "?v \<noteq> []" by (simp add: py_strip_def strip_with_def)
  have u: "?u \<noteq> []"
  proof
    assume "?u = []"
    then have "?v = []" by (simp only: rev.simps dropWhile.simps)
    then show False using v by simp
  qed
  have "\<not> is_space (hd ?v)" using v by (rule hd_dropWhile)
  then have 1: "\<not> is_space (last (py_strip s))" using v by (simp add: py_strip_def strip_with_def last_rev)
  have "last ?v = last (rev ?u)" using v by (rule last_dropWhile)
  also have "\<dots> = hd ?u" using u by (simp add: last_rev)
  finally have "hd (py_strip s) = hd ?u" using v by (simp add: py_strip_def strip_with_def hd_rev)
  moreover have "\<not> is_space (hd ?u)" using u by (rule hd_dropWhile)
  ultimately show ?thesis using 1 by simp
qed

lemma py_strip_slice: "\<exists>a b. s = a @ py_strip s @ b"
proof -
  let ?u = "dropWhile is_space s"
  have "s = takeWhile is_space s @ ?u" by simp
  moreover have "rev (takeWhile is_space (rev ?u) @ dropWhile is_space (rev ?u)) = rev (rev ?u)"
    by (simp only: takeWhile_dropWhile_id)
  then have "rev (dropWhile is_space (rev ?u)) @ rev (takeWhile is_space (rev ?u)) = ?u"
    by (simp only: rev_append rev_rev_ident)
  then have "?u = py_strip s @ rev (takeWhile is_space (rev ?u))"
    by (simp only: py_strip_def strip_with_def)
  ultimately have "s = takeWhile is_space s @ py_strip s @ rev (takeWhile is_space (rev ?u))"
    by simp
  then show ?thesis by blast
qed

lemma py_strip_fixed:
  "s = [] \<or> (\<not> is_space (hd s) \<and> \<not> is_space (last s)) \<Longrightarrow> py_strip s = s"
  using py_strip_id [of s] by (cases "s = []") (auto simp: py_strip_def strip_with_def)

text \<open>The generic cleanup of a header, as \<open>clean_name\<close> computes it.\<close>

lemma generic_cleanup_fixed: "generic_cleanup (generic_cleanup h) = generic_cleanup h"
proof -
  let ?r = "\<lambda>c. if c = chr CHR '' '' then chr CHR ''_'' else c"
  let ?t = "py_strip (takeWhile (\<lambda>c. c \<noteq> chr CHR ''['') h)"
  let ?y = "generic_cleanup h"
  have y: "?y = map ?r ?t" by (simp add: generic_cleanup_def str_def py_replace_single)
  obtain a b where "takeWhile (\<lambda>c. c \<noteq> chr CHR ''['') h = a @ ?t @ b"
    using py_strip_slice by blast
  then have "set ?t \<subseteq> set (takeWhile (\<lambda>c. c \<noteq> chr CHR ''['') h)" by (metis set_append Un_upper1 Un_upper2 subset_trans)
  then have "chr CHR ''['' \<notin> set ?t" using set_takeWhileD by fastforce
  then have no_br: "chr CHR ''['' \<notin> set ?y" unfolding y by (auto simp: chr_def)
  have no_sp: "chr CHR '' '' \<notin> set ?y" unfolding y by (auto simp: chr_def)
  have 1: "takeWhile (\<lambda>c. c \<noteq> chr CHR ''['') ?y = ?y"
    using no_br by auto
  have ends: "?y = [] \<or> (\<not> is_space (hd ?y) \<and> \<not> is_space (last ?y))"
  proof (cases "?t = []")
    case True
    then show ?thesis using y by simp
  next
    case False
    then have e: "\<not> is_space (hd ?t)" "\<not> is_space (last ?t)" using py_strip_ends by blast+
    have "hd ?y = ?r (hd ?t)" "last ?y = ?r (last ?t)"
      unfolding y using False by (simp_all add: hd_map last_map)
    moreover have "\<not> is_space (?r c)" if "\<not> is_space c" for c
      using that by (simp add: is_space_def chr_def)
    ultimately show ?thesis using e by simp
  qed
  have 2: "py_strip ?y = ?y" using ends by (rule py_strip_fixed)
  have 3: "py_replace (chr CHR '' '') (str ''_'') ?y = ?y"
    using no_sp by (rule py_replace_absent)
  have "generic_cleanup ?y = py_replace (chr CHR '' '') (str ''_'') (py_strip (takeWhile (\<lambda>c. c \<noteq> chr CHR ''['') ?y))"
    by (simp add: generic_cleanup_def)
  then show ?thesis by (simp only: 1 2 3)
qed

lemma py_in_mono: "py_in n s \<Longrightarrow> py_in n (a @ s @ b)"
proof -
  assume "py_in n s"
  then obtain c d where "s = c @ n @ d" unfolding py_in_append by blast
  then have "a @ s @ b = (a @ c) @ n @ (d @ b)" by simp
  then show ?thesis unfolding py_in_append by blast
qed

lemma py_in_map:
  "py_in n (map f s) \<Longrightarrow> \<exists>m. map f m = n \<and> py_in m s"
proof -
  assume "py_in n (map f s)"
  then obtain a b where ab: "map f s = a @ (n @ b)" unfolding py_in_append by blast
  from map_eq_append_conv [THEN iffD1, OF ab]
  obtain a' r where r: "s = a' @ r" "n @ b = map f r" by blast
  from map_eq_append_conv [THEN iffD1, OF r(2) [symmetric]]
  obtain m b' where m: "r = m @ b'" "n = map f m" by blast
  have "s = a' @ m @ b'" using r(1) m(1) by simp
  then have "py_in m s" unfolding py_in_append by blast
  then show ?thesis using m(2) by blast
qed

lemma lower_cp_space:
  "lower_cp (if c = chr CHR '' '' then chr CHR ''_'' else c) =
   (if lower_cp c = chr CHR '' '' then chr CHR ''_'' else lower_cp c)"
  by (auto simp: lower_cp_def chr_def split: if_splits)


lemma clean_name_cases:
  "clean_name c =
     (if py_in (str ''residual'') (py_lower c) then str ''Residual_Load''
      else if py_in (str ''grid_load'') (py_lower c) \<or> py_in (str ''grid load'') (py_lower c)
      then str ''Grid_Load'' else generic_cleanup c)"
  by (simp add: clean_name_def generic_cleanup_def py_split_head Let_def)

lemma generic_cleanup_lower:
  "py_lower (generic_cleanup c) =
   map (\<lambda>c. if c = chr CHR '' '' then chr CHR ''_'' else c)
     (py_lower (py_strip (takeWhile (\<lambda>c. c \<noteq> chr CHR ''['') c)))"
  by (simp add: generic_cleanup_def str_def py_replace_single py_lower_def lower_cp_space o_def)

lemma slice_of_header:
  "py_in m (py_lower (py_strip (takeWhile (\<lambda>c. c \<noteq> chr CHR ''['') c))) \<Longrightarrow> py_in m (py_lower c)"
proof -
  let ?t = "takeWhile (\<lambda>c. c \<noteq> chr CHR ''['') c"
  assume m: "py_in m (py_lower (py_strip ?t))"
  obtain a b where ab: "?t = a @ py_strip ?t @ b" using py_strip_slice by blast
  have "c = ?t @ dropWhile (\<lambda>c. c \<noteq> chr CHR ''['') c" by simp
  then have "c = a @ py_strip ?t @ (b @ dropWhile (\<lambda>c. c \<noteq> chr CHR ''['') c)"
    using ab by (metis append_assoc)
  then have "py_lower c = py_lower a @ py_lower (py_strip ?t) @
                          py_lower (b @ dropWhile (\<lambda>c. c \<noteq> chr CHR ''['') c)"
    unfolding py_lower_def by (metis map_append)
  then show ?thesis using py_in_mono [OF m] by simp
qed

lemma underscore_preimage_residual:
  "map (\<lambda>c. if c = chr CHR '' '' then chr CHR ''_'' else c) m = str ''residual'' \<Longrightarrow> m = str ''residual''"
  by (auto simp: map_eq_Cons_conv str_def chr_def split: if_splits)

lemma underscore_preimage_grid:
  "map (\<lambda>c. if c = chr CHR '' '' then chr CHR ''_'' else c) m = str ''grid_load'' \<Longrightarrow>
   m = str ''grid_load'' \<or> m = str ''grid load''"
  by (auto simp: map_eq_Cons_conv str_def chr_def split: if_splits)

lemma underscore_preimage_space:
  "map (\<lambda>c. if c = chr CHR '' '' then chr CHR ''_'' else c) m \<noteq> str ''grid load''"
  by (auto simp: map_eq_Cons_conv str_def chr_def split: if_splits)

lemma py_in_cleanup:
  assumes "py_in n (py_lower (generic_cleanup c))"
  shows "\<exists>m. map (\<lambda>c. if c = chr CHR '' '' then chr CHR ''_'' else c) m = n \<and> py_in m (py_lower c)"
proof -
  from py_in_map [OF assms [unfolded generic_cleanup_lower]]
  obtain m where m: "map (\<lambda>c. if c = chr CHR '' '' then chr CHR ''_'' else c) m = n"
    "py_in m (py_lower (py_strip (takeWhile (\<lambda>c. c \<noteq> chr CHR ''['') c)))"
    by blast
  from m(2) have "py_in m (py_lower c)" by (rule slice_of_header)
  then show ?thesis using m(1) by blast
qed

lemma preimage_unique:
  assumes "\<exists>m. f m = n \<and> P m" and "\<And>m. f m = n \<Longrightarrow> m = n"
  shows "P n"
proof -
  from assms(1) obtain m where m: "f m = n" "P m" by (elim exE conjE)
  from assms(2) [OF m(1)] m(2) show ?thesis by simp
qed

lemma preimage_two:
  assumes "\<exists>m. f m = n \<and> P m" and "\<And>m. f m = n \<Longrightarrow> m = n \<or> m = n'"
  shows "P n \<or> P n'"
proof -
  from assms(1) obtain m where m: "f m = n" "P m" by (elim exE conjE)
  from assms(2) [OF m(1)] m(2) show ?thesis by auto
qed

lemma preimage_none:
  assumes "\<exists>m. f m = n \<and> P m" and "\<And>m. f m \<noteq> n"
  shows False
proof -
  from assms(1) obtain m where m: "f m = n" "P m" by (elim exE conjE)
  from assms(2) [of m] m(1) show ?thesis by simp
qed

lemma generic_cleanup_no_rule:
  assumes "\<not> py_in (str ''residual'') (py_lower c)" "\<not> py_in (str ''grid_load'') (py_lower c)"
    "\<not> py_in (str ''grid load'') (py_lower c)"
  shows "\<not> py_in (str ''residual'') (py_lower (generic_cleanup c)) \<and>
         \<not> py_in (str ''grid_load'') (py_lower (generic_cleanup c)) \<and>
         \<not> py_in (str ''grid load'') (py_lower (generic_cleanup c))"
proof (intro conjI notI)
  assume "py_in (str ''residual'') (py_lower (generic_cleanup c))"
  then have "py_in (str ''residual'') (py_lower c)"
    by (rule preimage_unique [OF py_in_cleanup underscore_preimage_residual])
  then show False using assms(1) by (rule notE [rotated])
next
  assume "py_in (str ''grid_load'') (py_lower (generic_cleanup c))"
  then have "py_in (str ''grid_load'') (py_lower c) \<or> py_in (str ''grid load'') (py_lower c)"
    by (rule preimage_two [OF py_in_cleanup underscore_preimage_grid])
  then show False
  proof
    assume "py_in (str ''grid_load'') (py_lower c)"
    then show False using assms(2) by (rule notE [rotated])
  next
    assume "py_in (str ''grid load'') (py_lower c)"
    then show False using assms(3) by (rule notE [rotated])
  qed
next
  assume "py_in (str ''grid load'') (py_lower (generic_cleanup c))"
  then show False
    by (rule preimage_none [OF py_in_cleanup underscore_preimage_space])
qed

lemma clean_name_fixed: "clean_name (clean_name c) = clean_name c"
proof -
  have r: "clean_name (str ''Residual_Load'') = str ''Residual_Load''"
    by (simp add: clean_name_cases py_lower_def lower_cp_def str_def chr_def)
  have g: "clean_name (str ''Grid_Load'') = str ''Grid_Load''"
    by (simp add: clean_name_cases py_lower_def lower_cp_def str_def chr_def)
  show ?thesis
  proof (cases "py_in (str ''residual'') (py_lower c)")
    case True
    then show ?thesis using r by (simp add: clean_name_cases)
  next
    case False
    note nr = this
    show ?thesis
    proof (cases "py_in (str ''grid_load'') (py_lower c) \<or> py_in (str ''grid load'') (py_lower c)")
      case True
      then show ?thesis using nr g by (simp add: clean_name_cases)
    next
      case False
      then have c: "clean_name c = generic_cleanup c" using nr by (simp add: clean_name_cases)
      have "clean_name (generic_cleanup c) = generic_cleanup (generic_cleanup c)"
        using generic_cleanup_no_rule [of c] nr False by (simp add: clean_name_cases)
      then show ?thesis using c generic_cleanup_fixed by simp
    qed
  qed
qed

lemma rename_loop_set:
  "rename_loop rest (map (\<lambda>c. if c \<in> S then clean_name c else c) xs) =
   map (\<lambda>c. if c \<in> S \<union> set rest then clean_name c else c) xs"
proof (induction rest arbitrary: S)
  case Nil
  then show ?case by simp
next
  case (Cons col rest)
  have eq: "map (\<lambda>c. if c = col then clean_name col else c)
          (map (\<lambda>c. if c \<in> S then clean_name c else c) xs) =
        map (\<lambda>c. if c \<in> insert col S then clean_name c else c) xs"
    using clean_name_fixed by (auto simp: o_def)
  have "rename_loop (col # rest) (map (\<lambda>c. if c \<in> S then clean_name c else c) xs) =
        rename_loop rest (map (\<lambda>c. if c \<in> insert col S then clean_name c else c) xs)"
    by (simp only: rename_loop.simps eq)
  also have "\<dots> = map (\<lambda>c. if c \<in> insert col S \<union> set rest then clean_name c else c) xs"
    by (rule Cons.IH)
  finally show ?case by simp
qed

lemma rename_loop_all: "rename_loop cols cols = map clean_name cols"
  using rename_loop_set [of cols "{}" cols] by simp

section \<open>The columns of the normalized table\<close>


lemma select_by_filter: "select_by (map P xs) xs = filter P xs"
  by (induction xs) (simp_all add: select_by_def)

lemma filter_remove_nth:
  "i < length xs \<Longrightarrow> \<not> P (xs ! i) \<Longrightarrow> filter P (remove_nth i xs) = filter P xs"
proof -
  assume a: "i < length xs" "\<not> P (xs ! i)"
  have "xs = take i xs @ xs ! i # drop (Suc i) xs" using a(1) by (rule id_take_nth_drop)
  then have "filter P xs = filter P (take i xs) @ filter P (xs ! i # drop (Suc i) xs)"
    by (metis filter_append)
  then show ?thesis using a(2) by (simp add: remove_nth_def)
qed

lemma setitem_columns_present:
  "name \<in> set (columns df) \<Longrightarrow> columns (setitem df name vals) = columns df"
  using find_pos_mem [of name "columns df"] by (auto simp: setitem_def)

lemma setitem_columns:
  "columns (setitem df name vals) =
   (if name \<in> set (columns df) then columns df else columns df @ [name])"
  using find_pos_mem [of name "columns df"] find_pos_None [of name "columns df"]
  by (cases "find_pos name (columns df)") (auto simp: setitem_def)

lemma getitem_present: "getitem df name = Inr cells \<Longrightarrow> name \<in> set (columns df)"
  using find_pos_None [of name "columns df"]
  by (cases "find_pos name (columns df)") (auto simp: getitem_def)

lemma numeric_loop_columns: "numeric_loop cols df = Inr d \<Longrightarrow> columns d = columns df"
proof (induction cols df arbitrary: d rule: numeric_loop.induct)
  case (1 df)
  then show ?case by simp
next
  case (2 col rest df)
  from "2.prems" have c: "\<not> 1 < count_list (columns df) col"
    by (auto split: if_splits)
  from "2.prems" c obtain cells where cells: "getitem df col = Inr cells"
    by (cases "getitem df col") (auto split: if_splits)
  show ?case
  proof (cases "list_ex is_str cells")
    case True
    from "2.prems" c cells True obtain vals where vals: "series_apply cells = Inr vals"
      by (cases "series_apply cells") auto
    from "2.prems" c cells True vals have "numeric_loop rest (setitem df col vals) = Inr d"
      by simp
    from "2.IH"(1) [OF c cells True vals this]
    have "columns d = columns (setitem df col vals)" .
    then show ?thesis using getitem_present [OF cells] by (simp add: setitem_columns_present)
  next
    case False
    from "2.prems" c cells False have "numeric_loop rest df = Inr d" by simp
    from "2.IH"(2) [OF c cells False this] show ?thesis .
  qed
qed



lemma date_like_timestamp: "date_like (str ''timestamp'')"
  by (simp add: date_like_def py_lower_def lower_cp_def str_def chr_def)

lemma getitem_total: "name \<in> set (columns df) \<Longrightarrow> \<exists>cells. getitem df name = Inr cells"
  using find_pos_mem [of name "columns df"] by (auto simp: getitem_def)

lemma add_timestamp_columns:
  assumes "add_timestamp conv df = Inr df1"
  shows "columns df1 = columns df \<or> columns df1 = columns df @ [str ''timestamp'']"
proof (cases "str ''Start date'' \<in> set (columns df)")
  case True
  then obtain cells where "getitem df (str ''Start date'') = Inr cells"
    using getitem_total by blast
  then have "df1 = setitem df (str ''timestamp'') (map to_datetime_coerce cells)"
    using assms True by (simp add: add_timestamp_def)
  then show ?thesis by (simp add: setitem_columns)
next
  case False
  note nsd = this
  show ?thesis
  proof (cases "str ''timestamp'' \<in> set (columns df)")
    case True
    then obtain cells where cells: "getitem df (str ''timestamp'') = Inr cells"
      using getitem_total by blast
    then obtain ts where "df1 = setitem df (str ''timestamp'') ts"
      using assms True nsd
      by (cases "to_datetime_raise conv cells") (auto simp: add_timestamp_def)
    then show ?thesis using True by (simp add: setitem_columns)
  next
    case False
    then show ?thesis using assms nsd by (simp add: add_timestamp_def)
  qed
qed

lemma add_timestamp_filter:
  assumes "add_timestamp conv df = Inr df1"
  shows "filter (\<lambda>c. \<not> date_like c) (columns df1) = filter (\<lambda>c. \<not> date_like c) (columns df)"
  using add_timestamp_columns [OF assms] date_like_timestamp by auto

lemma dropna_columns: "dropna name df = Inr d \<Longrightarrow> columns d = columns df"
  by (cases "find_pos name (columns df)") (auto simp: dropna_def)

lemma set_index_columns:
  assumes "set_index name df = Inr d" "\<not> P name"
  shows "filter P (columns d) = filter P (columns df)"
proof -
  from assms(1) obtain i where i: "find_pos name (columns df) = Some i"
    "columns d = remove_nth i (columns df)"
    by (cases "find_pos name (columns df)") (auto simp: set_index_def)
  from find_pos_Some [OF i(1)] have "i < length (columns df)" "columns df ! i = name" by simp_all
  then show ?thesis using assms(2) i(2) by (simp add: filter_remove_nth)
qed

lemma drop_columns_columns:
  "columns (drop_columns (filter Q (columns df)) df) = filter (\<lambda>c. \<not> Q c) (columns df)"
proof -
  have "filter (\<lambda>c. c \<notin> set (filter Q (columns df))) (columns df) =
        filter (\<lambda>c. \<not> Q c) (columns df)"
    by (rule filter_cong) simp_all
  then show ?thesis by (simp add: drop_columns_def Let_def select_by_filter)
qed



lemma clean_frame_steps:
  assumes "clean_frame conv df = Inr d"
  shows "\<exists>df1 df2 df3.
           add_timestamp conv df = Inr df1 \<and> dropna (str ''timestamp'') df1 = Inr df2 \<and>
           set_index (str ''timestamp'') df2 = Inr df3 \<and>
           numeric_loop
             (rename_loop (columns (drop_columns (filter date_like (columns df3)) df3))
                          (columns (drop_columns (filter date_like (columns df3)) df3)))
             ((drop_columns (filter date_like (columns df3)) df3)
                \<lparr>columns := rename_loop (columns (drop_columns (filter date_like (columns df3)) df3))
                                        (columns (drop_columns (filter date_like (columns df3)) df3))\<rparr>) =
           Inr d"
proof -
  obtain df1 where 1: "add_timestamp conv df = Inr df1"
    using assms by (cases "add_timestamp conv df") (simp_all add: clean_frame_def)
  obtain df2 where 2: "dropna (str ''timestamp'') df1 = Inr df2"
    using assms 1 by (cases "dropna (str ''timestamp'') df1") (simp_all add: clean_frame_def)
  obtain df3 where 3: "set_index (str ''timestamp'') df2 = Inr df3"
    using assms 1 2 by (cases "set_index (str ''timestamp'') df2") (simp_all add: clean_frame_def)
  have "clean_frame conv df =
        numeric_loop
             (rename_loop (columns (drop_columns (filter date_like (columns df3)) df3))
                          (columns (drop_columns (filter date_like (columns df3)) df3)))
             ((drop_columns (filter date_like (columns df3)) df3)
                \<lparr>columns := rename_loop (columns (drop_columns (filter date_like (columns df3)) df3))
                                        (columns (drop_columns (filter date_like (columns df3)) df3))\<rparr>)"
    unfolding clean_frame_def 1 2 3 sum.case Let_def by simp
  then show ?thesis using assms 1 2 3 by metis
qed



lemma clean_frame_columns:
  assumes "clean_frame conv df = Inr d"
  shows "columns d = map clean_name (filter (\<lambda>c. \<not> date_like c) (columns df))"
proof -
  from clean_frame_steps [OF assms] obtain df1 df2 df3 where
    1: "add_timestamp conv df = Inr df1" and
    2: "dropna (str ''timestamp'') df1 = Inr df2" and
    3: "set_index (str ''timestamp'') df2 = Inr df3" and
    4: "numeric_loop
             (rename_loop (columns (drop_columns (filter date_like (columns df3)) df3))
                          (columns (drop_columns (filter date_like (columns df3)) df3)))
             ((drop_columns (filter date_like (columns df3)) df3)
                \<lparr>columns := rename_loop (columns (drop_columns (filter date_like (columns df3)) df3))
                                        (columns (drop_columns (filter date_like (columns df3)) df3))\<rparr>) =
           Inr d"
    by (elim exE conjE)
  let ?keep = "\<lambda>c. \<not> date_like c"
  have "filter ?keep (columns df3) = filter ?keep (columns df2)"
    using 3 date_like_timestamp by (intro set_index_columns [of "str ''timestamp''"]) simp_all
  also have "\<dots> = filter ?keep (columns df1)" using dropna_columns [OF 2] by simp
  also have "\<dots> = filter ?keep (columns df)" using 1 by (rule add_timestamp_filter)
  finally have cols: "columns (drop_columns (filter date_like (columns df3)) df3) =
                      filter ?keep (columns df)"
    by (simp only: drop_columns_columns)
  have "columns d =
        rename_loop (columns (drop_columns (filter date_like (columns df3)) df3))
                    (columns (drop_columns (filter date_like (columns df3)) df3))"
    using numeric_loop_columns [OF 4] by simp
  then show ?thesis by (simp only: cols rename_loop_all)
qed


text \<open>
  Claim C6. The name the normalizer gives a header is the name the specification's rules
  give it: the first rule that matches, ignoring case, decides (\<^verbatim>\<open>residual\<close> before
  \<^verbatim>\<open>grid load\<close> and \<^verbatim>\<open>grid_load\<close>), and a header no rule matches is cut at its unit
  annotation, trimmed, and has its spaces replaced by underscores. The renaming loop
  gives every header it runs over that name, and the table returned carries these names
  for the headers left after the date columns are dropped.
\<close>

theorem header_canonicalization:
  "clean_name header = canonical_name header \<and>
   rename_loop cols cols = map canonical_name cols \<and>
   (clean_frame conv df = Inr d \<longrightarrow>
      columns d = map canonical_name (filter (\<lambda>c. \<not> date_like c) (columns df))) \<and>
   canonical_name (str ''Total [MWh] Calculated resolutions'') = str ''Total''"
proof -
  have eq: "clean_name = canonical_name" by (rule ext) (rule clean_name_canonical)
  have 1: "rename_loop cols cols = map canonical_name cols"
    using rename_loop_all [of cols] by (simp only: eq)
  have 2: "columns d = map canonical_name (filter (\<lambda>c. \<not> date_like c) (columns df))"
    if "clean_frame conv df = Inr d"
    using clean_frame_columns [OF that] by (simp only: eq)
  have 3: "canonical_name (str ''Total [MWh] Calculated resolutions'') = str ''Total''"
    using clean_name_examples(1) by (simp only: eq)
  show ?thesis using clean_name_canonical 1 2 3 by blast
qed

theorem header_canonicalization_witness:
  "clean_frame (\<lambda>v. None)
     \<lparr>columns = [str ''Start date'', str ''End date'', str ''Total [MWh] Calculated resolutions''],
       rows = [(PyInt 0, [PyStr (str ''Jan 1, 2021 12:00 AM''), PyStr (str ''Jan 1, 2021 1:00 AM''),
                          PyFloat (Finite 5)]),
               (PyInt 1, [PyStr (str ''garbage''), PyStr (str ''garbage''), PyFloat (Finite 6)])]\<rparr> =
   Inr \<lparr>columns = [str ''Total''],
         rows = [(PyTimestamp (Timestamp 2021 1 1 0 0), [PyFloat (Finite 5)])]\<rparr> \<and>
   map canonical_name
     (filter (\<lambda>c. \<not> date_like c)
        [str ''Start date'', str ''End date'', str ''Total [MWh] Calculated resolutions'']) =
   [str ''Total''] \<and>
   canonical_name (str ''Residual load [MWh] Calculated resolutions'') = str ''Residual_Load'' \<and>
   canonical_name (str ''Total (grid load) [MWh] Calculated resolutions'') = str ''Grid_Load'' \<and>
   canonical_name (str ''Hydro pumped storage [MWh] Calculated resolutions'') =
     str ''Hydro_pumped_storage'' \<and>
   rename_loop [str ''Wind offshore [MWh]'', str ''Wind onshore [MWh]'']
               [str ''Wind offshore [MWh]'', str ''Wind onshore [MWh]''] =
     [str ''Wind_offshore'', str ''Wind_onshore'']"
proof -
  let ?raw = "\<lparr>columns = [str ''Start date'', str ''End date'', str ''Total [MWh] Calculated resolutions''],
       rows = [(PyInt 0, [PyStr (str ''Jan 1, 2021 12:00 AM''), PyStr (str ''Jan 1, 2021 1:00 AM''),
                          PyFloat (Finite 5)]),
               (PyInt 1, [PyStr (str ''garbage''), PyStr (str ''garbage''), PyFloat (Finite 6)])]\<rparr>"
  let ?d = "\<lparr>columns = [str ''Total''],
         rows = [(PyTimestamp (Timestamp 2021 1 1 0 0), [PyFloat (Finite 5)])]\<rparr>"
  have run: "clean_frame (\<lambda>v. None) ?raw = Inr ?d" by (rule start_date_example)
  have 1: "map canonical_name
     (filter (\<lambda>c. \<not> date_like c)
        [str ''Start date'', str ''End date'', str ''Total [MWh] Calculated resolutions'']) =
   [str ''Total'']"
    using header_canonicalization [of _ _ "\<lambda>v. None" ?raw ?d] run by simp
  have 2: "canonical_name (str ''Residual load [MWh] Calculated resolutions'') = str ''Residual_Load''"
    using header_canonicalization [of "str ''Residual load [MWh] Calculated resolutions''"]
    by (simp add: clean_name_def text_eval)
  have 3: "canonical_name (str ''Total (grid load) [MWh] Calculated resolutions'') = str ''Grid_Load''"
    using header_canonicalization [of "str ''Total (grid load) [MWh] Calculated resolutions''"]
    by (simp add: clean_name_def text_eval)
  have 4: "canonical_name (str ''Hydro pumped storage [MWh] Calculated resolutions'') =
     str ''Hydro_pumped_storage''"
    using header_canonicalization [of "str ''Hydro pumped storage [MWh] Calculated resolutions''"]
    by (simp add: clean_name_def text_eval)
  have 5: "canonical_name (str ''Wind offshore [MWh]'') = str ''Wind_offshore''"
    using header_canonicalization [of "str ''Wind offshore [MWh]''"]
    by (simp add: clean_name_def text_eval)
  have 6: "canonical_name (str ''Wind onshore [MWh]'') = str ''Wind_onshore''"
    using header_canonicalization [of "str ''Wind onshore [MWh]''"]
    by (simp add: clean_name_def text_eval)
  have 7: "rename_loop [str ''Wind offshore [MWh]'', str ''Wind onshore [MWh]'']
               [str ''Wind offshore [MWh]'', str ''Wind onshore [MWh]''] =
     [str ''Wind_offshore'', str ''Wind_onshore'']"
    using header_canonicalization [of _ "[str ''Wind offshore [MWh]'', str ''Wind onshore [MWh]'']"]
    by (simp only: list.map 5 6)
  show ?thesis using run 1 2 3 4 7 by blast
qed

section \<open>The price column and the raw header\<close>

lemma py_in_dropWhile:
  assumes "n \<noteq> []" "\<not> P (hd n)"
  shows "py_in n s \<Longrightarrow> py_in n (dropWhile P s)"
proof (induction s)
  case Nil
  then show ?case using assms(1) by simp
next
  case (Cons c cs)
  show ?case
  proof (cases "P c")
    case True
    obtain x xs where n: "n = x # xs" using assms(1) by (cases n) auto
    have "\<not> starts_with n (c # cs)" using True assms(2) n by auto
    then have "py_in n cs" using Cons.prems by simp
    then show ?thesis using Cons.IH True by simp
  next
    case False
    then show ?thesis using Cons.prems by simp
  qed
qed

lemma py_in_rev_imp: "py_in n s \<Longrightarrow> py_in (rev n) (rev s)"
proof -
  assume "py_in n s"
  then obtain a b where "s = a @ n @ b" unfolding py_in_append by blast
  then have "rev s = rev b @ rev n @ rev a" by simp
  then show ?thesis unfolding py_in_append by blast
qed

lemma py_in_strip:
  assumes "n \<noteq> []" "\<not> is_space (hd n)" "\<not> is_space (last n)"
  shows "py_in n (py_strip s) \<longleftrightarrow> py_in n s"
proof
  assume "py_in n (py_strip s)"
  moreover obtain a b where "s = a @ py_strip s @ b" using py_strip_slice by blast
  ultimately show "py_in n s" using py_in_mono by metis
next
  assume "py_in n s"
  then have "py_in n (dropWhile is_space s)" using assms(1,2) by (rule py_in_dropWhile [rotated 2])
  then have "py_in (rev n) (rev (dropWhile is_space s))" by (rule py_in_rev_imp)
  moreover have "rev n \<noteq> []" "\<not> is_space (hd (rev n))" using assms by (simp_all add: hd_rev)
  ultimately have "py_in (rev n) (dropWhile is_space (rev (dropWhile is_space s)))"
    by (intro py_in_dropWhile)
  then have "py_in (rev (rev n)) (rev (dropWhile is_space (rev (dropWhile is_space s))))"
    by (rule py_in_rev_imp)
  then show "py_in n (py_strip s)" by (simp add: py_strip_def strip_with_def)
qed

lemma py_in_map_imp: "py_in n s \<Longrightarrow> py_in (map f n) (map f s)"
proof -
  assume "py_in n s"
  then obtain a b where "s = a @ n @ b" unfolding py_in_append by blast
  then have "map f s = map f a @ map f n @ map f b" by simp
  then show ?thesis unfolding py_in_append by blast
qed

lemma underscore_map_id:
  "chr CHR '' '' \<notin> set n \<Longrightarrow>
   map (\<lambda>c. if c = chr CHR '' '' then chr CHR ''_'' else c) n = n"
  by (induction n) auto

lemma underscore_map_preimage:
  "chr CHR ''_'' \<notin> set n \<Longrightarrow>
   map (\<lambda>c. if c = chr CHR '' '' then chr CHR ''_'' else c) m = n \<Longrightarrow> m = n"
  by (induction m arbitrary: n) (auto split: if_splits)

lemma py_in_generic_cleanup:
  assumes "n \<noteq> []" "\<not> is_space (hd n)" "\<not> is_space (last n)"
    "chr CHR '' '' \<notin> set n" "chr CHR ''_'' \<notin> set n"
  shows "py_in n (generic_cleanup h) \<longleftrightarrow> py_in n (takeWhile (\<lambda>c. c \<noteq> chr CHR ''['') h)"
proof -
  let ?r = "\<lambda>c. if c = chr CHR '' '' then chr CHR ''_'' else c"
  let ?t = "takeWhile (\<lambda>c. c \<noteq> chr CHR ''['') h"
  have g: "generic_cleanup h = map ?r (py_strip ?t)"
    by (simp add: generic_cleanup_def str_def py_replace_single)
  show ?thesis
  proof
    assume "py_in n (generic_cleanup h)"
    then obtain m where m: "map ?r m = n" "py_in m (py_strip ?t)"
      unfolding g using py_in_map by blast
    from underscore_map_preimage [OF assms(5) m(1)] m(2) have "py_in n (py_strip ?t)" by simp
    then show "py_in n ?t" using py_in_strip [OF assms(1,2,3)] by simp
  next
    assume "py_in n ?t"
    then have "py_in n (py_strip ?t)" using py_in_strip [OF assms(1,2,3)] by simp
    then have "py_in (map ?r n) (map ?r (py_strip ?t))" by (rule py_in_map_imp)
    then show "py_in n (generic_cleanup h)"
      using underscore_map_id [OF assms(4)] by (simp only: g)
  qed
qed

lemma no_rule_generic:
  "find (\<lambda>rule. fst rule h) rename_rules = None \<Longrightarrow> clean_name h = generic_cleanup h"
  by (simp add: clean_name_canonical canonical_name_def)

lemma rule_name:
  "find (\<lambda>rule. fst rule h) rename_rules \<noteq> None \<Longrightarrow>
   clean_name h = str ''Residual_Load'' \<or> clean_name h = str ''Grid_Load''"
  by (auto simp: clean_name_canonical canonical_name_def rename_rules_def split: if_splits)

lemma price_test_canonical:
  "(py_in (str ''Deutschland'') (clean_name h) \<or> py_in euro_sign (clean_name h)) \<longleftrightarrow>
   price_header h"
proof (cases "find (\<lambda>rule. fst rule h) rename_rules = None")
  case True
  have d: "py_in (str ''Deutschland'') (generic_cleanup h) \<longleftrightarrow>
           py_in (str ''Deutschland'') (takeWhile (\<lambda>c. c \<noteq> chr CHR ''['') h)"
    by (rule py_in_generic_cleanup) (simp_all add: str_def chr_def is_space_def)
  have e: "py_in euro_sign (generic_cleanup h) \<longleftrightarrow>
           py_in euro_sign (takeWhile (\<lambda>c. c \<noteq> chr CHR ''['') h)"
    by (rule py_in_generic_cleanup) (simp_all add: euro_sign_def chr_def is_space_def)
  show ?thesis using True d e by (simp add: no_rule_generic price_header_def)
next
  case False
  have "\<not> py_in (str ''Deutschland'') (str ''Residual_Load'')"
    "\<not> py_in (str ''Deutschland'') (str ''Grid_Load'')"
    "\<not> py_in euro_sign (str ''Residual_Load'')" "\<not> py_in euro_sign (str ''Grid_Load'')"
    by (simp_all add: str_def chr_def euro_sign_def)
  then show ?thesis using False rule_name [OF False] by (auto simp: price_header_def)
qed

lemma find_first:
  "i < length xs \<Longrightarrow> P (xs ! i) \<Longrightarrow> \<forall>j<i. \<not> P (xs ! j) \<Longrightarrow> find P xs = Some (xs ! i)"
  unfolding find_Some_iff by blast

lemma rename_price_canonical:
  assumes "columns d = map clean_name hs" "k < length hs" "price_header (hs ! k)"
    "\<forall>j<k. \<not> price_header (hs ! j)"
  shows "rename_price d =
         d\<lparr>columns := map (\<lambda>h. if canonical_name h = canonical_name (hs ! k)
                                then str ''Day_Ahead_Price'' else canonical_name h) hs\<rparr>"
proof -
  let ?P = "\<lambda>col. py_in (str ''Deutschland'') col \<or> py_in euro_sign col"
  have "find ?P (map clean_name hs) = Some (map clean_name hs ! k)"
  proof (rule find_first)
    show "k < length (map clean_name hs)" using assms(2) by simp
    show "?P (map clean_name hs ! k)"
      using assms(2,3) price_test_canonical [of "hs ! k"] by simp
    show "\<forall>j<k. \<not> ?P (map clean_name hs ! j)"
    proof (intro allI impI)
      fix j assume j: "j < k"
      then have "\<not> price_header (hs ! j)" using assms(4) by simp
      then have "\<not> ?P (clean_name (hs ! j))" using price_test_canonical [of "hs ! j"] by simp
      then show "\<not> ?P (map clean_name hs ! j)" using j assms(2) by simp
    qed
  qed
  then have "find ?P (columns d) = Some (clean_name (hs ! k))"
    using assms(1,2) by simp
  then have "rename_price d =
        d\<lparr>columns := map (\<lambda>c. if c = clean_name (hs ! k) then str ''Day_Ahead_Price'' else c)
                           (map clean_name hs)\<rparr>"
    using assms(1) by (simp add: rename_price_def)
  then show ?thesis by (simp add: o_def clean_name_canonical)
qed

lemma rename_price_single:
  "length (columns d) = 1 \<Longrightarrow> rename_price d = d\<lparr>columns := [str ''Day_Ahead_Price'']\<rparr>"
proof -
  assume "length (columns d) = 1"
  then obtain c where c: "columns d = [c]" by (cases "columns d") auto
  show ?thesis
    by (cases "py_in (str ''Deutschland'') c \<or> py_in euro_sign c")
       (simp_all add: rename_price_def c)
qed

lemma process_prices_read:
  "read_csv prices_csv = Inr raw \<Longrightarrow> clean_frame conv raw = Inr d \<Longrightarrow>
   process_prices conv read_csv dfs =
     ([Print (str ''Processing '' @ prices_csv @ str ''...'')], Inr (dfs @ [rename_price d]))"
  by (simp add: process_prices_def clean_smard_df_def and_then_def)

text \<open>
  Claim C8. The driver renames the first column, in column order, whose name contains
  \<^verbatim>\<open>Deutschland\<close> or the euro sign, together with every column of that same name, and
  stops: a later column whose name matches as well keeps its name. Where no name matches,
  a table of one column has that column renamed and any other table is left as it is; a
  table of one column is renamed in either case. In terms of the raw headers of
  \<^verbatim>\<open>prices.csv\<close>: the column renamed is the first whose header carries \<^verbatim>\<open>Deutschland\<close> or
  the euro sign before its unit annotation.
\<close>

theorem price_rename_first_match:
  "(i < length (columns df) \<and>
    (py_in (str ''Deutschland'') (columns df ! i) \<or> py_in euro_sign (columns df ! i)) \<and>
    (\<forall>j<i. \<not> (py_in (str ''Deutschland'') (columns df ! j) \<or> py_in euro_sign (columns df ! j))) \<longrightarrow>
    columns (rename_price df) =
      map (\<lambda>c. if c = columns df ! i then str ''Day_Ahead_Price'' else c) (columns df)) \<and>
   ((\<forall>c\<in>set (columns df). \<not> py_in (str ''Deutschland'') c \<and> \<not> py_in euro_sign c) \<longrightarrow>
    columns (rename_price df) =
      (if length (columns df) = 1 then [str ''Day_Ahead_Price''] else columns df)) \<and>
   (length (columns df) = 1 \<longrightarrow> columns (rename_price df) = [str ''Day_Ahead_Price'']) \<and>
   rows (rename_price df) = rows df \<and>
   (clean_smard_df conv read_csv prices_csv = (out, Inr (Some df)) \<longrightarrow>
    process_prices conv read_csv dfs = (out, Inr (dfs @ [rename_price df]))) \<and>
   (read_csv prices_csv = Inr raw \<and> clean_frame conv raw = Inr d \<and>
    hs = filter (\<lambda>c. \<not> date_like c) (columns raw) \<and>
    k < length hs \<and> price_header (hs ! k) \<and> (\<forall>j<k. \<not> price_header (hs ! j)) \<longrightarrow>
    process_prices conv read_csv dfs =
      ([Print (str ''Processing '' @ prices_csv @ str ''...'')],
       Inr (dfs @ [d\<lparr>columns := map (\<lambda>h. if canonical_name h = canonical_name (hs ! k)
                                           then str ''Day_Ahead_Price'' else canonical_name h)
                                      hs\<rparr>]))) \<and>
   (read_csv prices_csv = Inr raw \<and> clean_frame conv raw = Inr d \<and>
    length (filter (\<lambda>c. \<not> date_like c) (columns raw)) = 1 \<longrightarrow>
    process_prices conv read_csv dfs =
      ([Print (str ''Processing '' @ prices_csv @ str ''...'')],
       Inr (dfs @ [d\<lparr>columns := [str ''Day_Ahead_Price'']\<rparr>])))"
proof (intro conjI impI)
  let ?P = "\<lambda>col. py_in (str ''Deutschland'') col \<or> py_in euro_sign col"
  assume "i < length (columns df) \<and> ?P (columns df ! i) \<and> (\<forall>j<i. \<not> ?P (columns df ! j))"
  then have "find ?P (columns df) = Some (columns df ! i)"
    unfolding find_Some_iff by blast
  then show "columns (rename_price df) =
      map (\<lambda>c. if c = columns df ! i then str ''Day_Ahead_Price'' else c) (columns df)"
    by (simp add: rename_price_def)
next
  assume "\<forall>c\<in>set (columns df). \<not> py_in (str ''Deutschland'') c \<and> \<not> py_in euro_sign c"
  then have "find (\<lambda>col. py_in (str ''Deutschland'') col \<or> py_in euro_sign col) (columns df) = None"
    unfolding find_None_iff by blast
  then show "columns (rename_price df) =
      (if length (columns df) = 1 then [str ''Day_Ahead_Price''] else columns df)"
    by (simp add: rename_price_def)
next
  assume "length (columns df) = 1"
  then show "columns (rename_price df) = [str ''Day_Ahead_Price'']"
    by (simp add: rename_price_single)
next
  show "rows (rename_price df) = rows df"
    by (simp add: rename_price_def split: option.splits)
next
  assume "clean_smard_df conv read_csv prices_csv = (out, Inr (Some df))"
  then show "process_prices conv read_csv dfs = (out, Inr (dfs @ [rename_price df]))"
    by (simp add: process_prices_def and_then_def)
next
  assume a: "read_csv prices_csv = Inr raw \<and> clean_frame conv raw = Inr d \<and>
    hs = filter (\<lambda>c. \<not> date_like c) (columns raw) \<and>
    k < length hs \<and> price_header (hs ! k) \<and> (\<forall>j<k. \<not> price_header (hs ! j))"
  then have cols: "columns d = map clean_name hs" using clean_frame_columns by blast
  have "rename_price d =
         d\<lparr>columns := map (\<lambda>h. if canonical_name h = canonical_name (hs ! k)
                                then str ''Day_Ahead_Price'' else canonical_name h) hs\<rparr>"
    using cols a by (intro rename_price_canonical) blast+
  then show "process_prices conv read_csv dfs =
      ([Print (str ''Processing '' @ prices_csv @ str ''...'')],
       Inr (dfs @ [d\<lparr>columns := map (\<lambda>h. if canonical_name h = canonical_name (hs ! k)
                                           then str ''Day_Ahead_Price'' else canonical_name h)
                                      hs\<rparr>]))"
    using a process_prices_read [of read_csv raw conv d dfs] by simp
next
  assume a: "read_csv prices_csv = Inr raw \<and> clean_frame conv raw = Inr d \<and>
    length (filter (\<lambda>c. \<not> date_like c) (columns raw)) = 1"
  then have "columns d = map clean_name (filter (\<lambda>c. \<not> date_like c) (columns raw))"
    using clean_frame_columns by blast
  then have "length (columns d) = 1" using a by simp
  then have "rename_price d = d\<lparr>columns := [str ''Day_Ahead_Price'']\<rparr>" by (rule rename_price_single)
  then show "process_prices conv read_csv dfs =
      ([Print (str ''Processing '' @ prices_csv @ str ''...'')],
       Inr (dfs @ [d\<lparr>columns := [str ''Day_Ahead_Price'']\<rparr>]))"
    using a process_prices_read [of read_csv raw conv d dfs] by simp
qed

theorem price_rename_first_match_witness:
  "columns (rename_price \<lparr>columns = [str ''Volume'', str ''Deutschland/Luxemburg'',
                                      str ''Deutschland/Austria/Luxemburg''], rows = []\<rparr>) =
     [str ''Volume'', str ''Day_Ahead_Price'', str ''Deutschland/Austria/Luxemburg''] \<and>
   columns (rename_price \<lparr>columns = [str ''Price''], rows = []\<rparr>) = [str ''Day_Ahead_Price''] \<and>
   columns (rename_price \<lparr>columns = [str ''Price'', str ''Volume''], rows = []\<rparr>) =
     [str ''Price'', str ''Volume''] \<and>
   process_prices (\<lambda>v. None)
     (\<lambda>p. Inr \<lparr>columns =
                 [str ''Start date'', str ''Volume'',
                  str ''Deutschland/Luxemburg ['' @ euro_sign @ str ''/MWh] Calculated resolutions'',
                  str ''Deutschland/Austria/Luxemburg ['' @ euro_sign @ str ''/MWh] Calculated resolutions''],
               rows = [(PyInt 0, [PyStr (str ''Jan 1, 2021 12:00 AM''), PyFloat (Finite 10),
                                  PyFloat (Finite 50), PyFloat (Finite 40)])]\<rparr>) [] =
   ([Print (str ''Processing ../data/prices.csv...'')],
    Inr [\<lparr>columns = [str ''Volume'', str ''Day_Ahead_Price'', str ''Deutschland/Austria/Luxemburg''],
          rows = [(PyTimestamp (Timestamp 2021 1 1 0 0),
                   [PyFloat (Finite 10), PyFloat (Finite 50), PyFloat (Finite 40)])]\<rparr>]) \<and>
   clean_smard_df (\<lambda>v. None)
     (\<lambda>p. Inr \<lparr>columns = [str ''Start date'', str ''Price ['' @ euro_sign @ str ''/MWh]''],
               rows = [(PyInt 0, [PyStr (str ''Jan 1, 2021 12:00 AM''), PyFloat (Finite 50)])]\<rparr>)
     prices_csv =
   ([Print (str ''Processing ../data/prices.csv...'')],
    Inr (Some \<lparr>columns = [str ''Price''],
                rows = [(PyTimestamp (Timestamp 2021 1 1 0 0), [PyFloat (Finite 50)])]\<rparr>)) \<and>
   process_prices (\<lambda>v. None)
     (\<lambda>p. Inr \<lparr>columns = [str ''Start date'', str ''Price ['' @ euro_sign @ str ''/MWh]''],
               rows = [(PyInt 0, [PyStr (str ''Jan 1, 2021 12:00 AM''), PyFloat (Finite 50)])]\<rparr>)
     [] =
   ([Print (str ''Processing ../data/prices.csv...'')],
    Inr [\<lparr>columns = [str ''Day_Ahead_Price''],
          rows = [(PyTimestamp (Timestamp 2021 1 1 0 0), [PyFloat (Finite 50)])]\<rparr>])"
proof -
  define h1 where
    "h1 = str ''Deutschland/Luxemburg ['' @ euro_sign @ str ''/MWh] Calculated resolutions''"
  define h2 where
    "h2 = str ''Deutschland/Austria/Luxemburg ['' @ euro_sign @ str ''/MWh] Calculated resolutions''"
  define h3 where "h3 = str ''Price ['' @ euro_sign @ str ''/MWh]''"
  define t0 where "t0 = PyTimestamp (Timestamp 2021 1 1 0 0)"
  let ?three = "\<lparr>columns = [str ''Volume'', str ''Deutschland/Luxemburg'',
                            str ''Deutschland/Austria/Luxemburg''], rows = []\<rparr>"
  let ?raw4 = "\<lparr>columns = [str ''Start date'', str ''Volume'', h1, h2],
               rows = [(PyInt 0, [PyStr (str ''Jan 1, 2021 12:00 AM''), PyFloat (Finite 10),
                                  PyFloat (Finite 50), PyFloat (Finite 40)])]\<rparr>"
  let ?d4 = "\<lparr>columns = [str ''Volume'', str ''Deutschland/Luxemburg'',
                         str ''Deutschland/Austria/Luxemburg''],
             rows = [(t0, [PyFloat (Finite 10), PyFloat (Finite 50), PyFloat (Finite 40)])]\<rparr>"
  let ?raw1 = "\<lparr>columns = [str ''Start date'', h3],
               rows = [(PyInt 0, [PyStr (str ''Jan 1, 2021 12:00 AM''), PyFloat (Finite 50)])]\<rparr>"
  let ?d1 = "\<lparr>columns = [str ''Price''], rows = [(t0, [PyFloat (Finite 50)])]\<rparr>"
  let ?out = "[Print (str ''Processing '' @ prices_csv @ str ''...'')]"
  have 1: "columns (rename_price ?three) =
     [str ''Volume'', str ''Day_Ahead_Price'', str ''Deutschland/Austria/Luxemburg'']"
    using price_rename_first_match [of 1 ?three]
    by (simp add: text_eval)
  have 2: "columns (rename_price \<lparr>columns = [str ''Price''], rows = []\<rparr>) = [str ''Day_Ahead_Price'']"
    using price_rename_first_match [of 0 "\<lparr>columns = [str ''Price''], rows = []\<rparr>"]
    by (simp add: text_eval)
  have 3: "columns (rename_price \<lparr>columns = [str ''Price'', str ''Volume''], rows = []\<rparr>) =
     [str ''Price'', str ''Volume'']"
    using price_rename_first_match [of 0 "\<lparr>columns = [str ''Price'', str ''Volume''], rows = []\<rparr>"]
    by (simp add: text_eval)
  have ne: "str ''Start date'' \<noteq> str ''timestamp''" "str ''Volume'' \<noteq> str ''timestamp''"
    "str ''Start date'' \<noteq> str ''Volume''" "h1 \<noteq> str ''Start date''" "h1 \<noteq> str ''timestamp''"
    "h2 \<noteq> str ''Start date''" "h2 \<noteq> str ''timestamp''" "h1 \<noteq> h2" "h1 \<noteq> str ''Volume''"
    "h2 \<noteq> str ''Volume''" "str ''Volume'' \<noteq> h1" "str ''Volume'' \<noteq> h2"
    "str ''Deutschland/Luxemburg'' \<noteq> h2" "h3 \<noteq> str ''Start date''" "h3 \<noteq> str ''timestamp''"
    "str ''Deutschland/Austria/Luxemburg'' \<noteq> str ''Deutschland/Luxemburg''"
    "str ''Deutschland/Austria/Luxemburg'' \<noteq> str ''Volume''"
    "str ''Deutschland/Luxemburg'' \<noteq> str ''Volume''"
    by (simp_all add: h1_def h2_def h3_def text_eval)
  have names: "clean_name h1 = str ''Deutschland/Luxemburg''"
    "clean_name h2 = str ''Deutschland/Austria/Luxemburg''" "clean_name h3 = str ''Price''"
    "clean_name (str ''Volume'') = str ''Volume''"
    using clean_name_examples by (simp_all add: h1_def h2_def h3_def)
  have dl: "\<not> date_like h1" "\<not> date_like h2" "\<not> date_like h3" "\<not> date_like (str ''Volume'')"
    "date_like (str ''Start date'')"
    using date_like_examples by (simp_all add: h1_def h2_def h3_def)
  have frame4: "clean_frame (\<lambda>v. None) ?raw4 = Inr ?d4"
    using ne by (simp add: frame_eval strptime_example names dl date_like_examples t0_def)
  have frame1: "clean_frame (\<lambda>v. None) ?raw1 = Inr ?d1"
    using ne by (simp add: frame_eval strptime_example names dl date_like_examples t0_def)
  have ph: "price_header h1" "\<not> price_header (str ''Volume'')"
    using price_test_canonical [of h1] price_test_canonical [of "str ''Volume''"]
    by (simp_all add: names) (simp_all add: text_eval)
  have cn: "canonical_name h1 = str ''Deutschland/Luxemburg''"
    "canonical_name h2 = str ''Deutschland/Austria/Luxemburg''"
    "canonical_name (str ''Volume'') = str ''Volume''"
    using names by (simp_all only: clean_name_canonical)
  have vals: "str ''Volume'' \<noteq> str ''Deutschland/Luxemburg''"
    "str ''Deutschland/Austria/Luxemburg'' \<noteq> str ''Deutschland/Luxemburg''"
    by (simp_all add: str_def chr_def)
  have "process_prices (\<lambda>v. None) (\<lambda>p. Inr ?raw4) [] =
      (?out, Inr ([] @ [?d4\<lparr>columns := map (\<lambda>h. if canonical_name h =
                                                    canonical_name ([str ''Volume'', h1, h2] ! 1)
                                           then str ''Day_Ahead_Price'' else canonical_name h)
                                      [str ''Volume'', h1, h2]\<rparr>]))"
    using price_rename_first_match
      [where read_csv = "\<lambda>p. Inr ?raw4" and raw = ?raw4 and conv = "\<lambda>v. None" and d = ?d4
         and hs = "[str ''Volume'', h1, h2]" and k = 1 and dfs = "[]"]
      frame4 ph dl
    by simp
  then have 4: "process_prices (\<lambda>v. None) (\<lambda>p. Inr ?raw4) [] =
      (?out, Inr [\<lparr>columns = [str ''Volume'', str ''Day_Ahead_Price'',
                                str ''Deutschland/Austria/Luxemburg''],
                    rows = [(t0, [PyFloat (Finite 10), PyFloat (Finite 50), PyFloat (Finite 40)])]\<rparr>])"
    using vals by (simp add: cn)
  have 5: "process_prices (\<lambda>v. None) (\<lambda>p. Inr ?raw1) [] =
      (?out, Inr ([] @ [?d1\<lparr>columns := [str ''Day_Ahead_Price'']\<rparr>]))"
    using price_rename_first_match
      [where read_csv = "\<lambda>p. Inr ?raw1" and raw = ?raw1 and conv = "\<lambda>v. None" and d = ?d1
         and dfs = "[]"]
      frame1 dl
    by simp
  have read1: "clean_smard_df (\<lambda>v. None) (\<lambda>p. Inr ?raw1) prices_csv = (?out, Inr (Some ?d1))"
    using frame1 by (simp add: clean_smard_df_def)
  have 6: "process_prices (\<lambda>v. None) (\<lambda>p. Inr ?raw1) [] = (?out, Inr ([] @ [rename_price ?d1]))"
    using price_rename_first_match
      [where read_csv = "\<lambda>p. Inr ?raw1" and conv = "\<lambda>v. None" and df = ?d1 and out = ?out
         and dfs = "[]"]
      read1
    by blast
  show ?thesis
    using 1 2 3 4 5 6 read1 unfolding h1_def h2_def h3_def t0_def
    by (simp add: prices_csv_def data_dir_def str_def)
qed

text \<open>
  The claim as the specification has it, for any column whose header matches, fails where
  two headers match: the raw headers below both contain \<^verbatim>\<open>Deutschland\<close>, both names
  after normalization still do, and the second column keeps its name.
\<close>

theorem price_rename_counterexample:
  "py_in (str ''Deutschland'')
     (str ''Deutschland/Austria/Luxemburg ['' @ euro_sign @ str ''/MWh] Calculated resolutions'') \<and>
   process_prices (\<lambda>v. None)
     (\<lambda>p. Inr \<lparr>columns =
                 [str ''Start date'',
                  str ''Deutschland/Luxemburg ['' @ euro_sign @ str ''/MWh] Calculated resolutions'',
                  str ''Deutschland/Austria/Luxemburg ['' @ euro_sign @ str ''/MWh] Calculated resolutions''],
               rows = [(PyInt 0, [PyStr (str ''Jan 1, 2021 12:00 AM''),
                                  PyFloat (Finite 50), PyFloat (Finite 40)])]\<rparr>) [] =
   ([Print (str ''Processing ../data/prices.csv...'')],
    Inr [\<lparr>columns = [str ''Day_Ahead_Price'', str ''Deutschland/Austria/Luxemburg''],
          rows = [(PyTimestamp (Timestamp 2021 1 1 0 0),
                   [PyFloat (Finite 50), PyFloat (Finite 40)])]\<rparr>])"
proof -
  define h1 where
    "h1 = str ''Deutschland/Luxemburg ['' @ euro_sign @ str ''/MWh] Calculated resolutions''"
  define h2 where
    "h2 = str ''Deutschland/Austria/Luxemburg ['' @ euro_sign @ str ''/MWh] Calculated resolutions''"
  let ?raw = "\<lparr>columns = [str ''Start date'', h1, h2],
               rows = [(PyInt 0, [PyStr (str ''Jan 1, 2021 12:00 AM''),
                                  PyFloat (Finite 50), PyFloat (Finite 40)])]\<rparr>"
  let ?d = "\<lparr>columns = [str ''Deutschland/Luxemburg'', str ''Deutschland/Austria/Luxemburg''],
          rows = [(PyTimestamp (Timestamp 2021 1 1 0 0),
                   [PyFloat (Finite 50), PyFloat (Finite 40)])]\<rparr>"
  let ?r = "\<lparr>columns = [str ''Day_Ahead_Price'', str ''Deutschland/Austria/Luxemburg''],
          rows = [(PyTimestamp (Timestamp 2021 1 1 0 0),
                   [PyFloat (Finite 50), PyFloat (Finite 40)])]\<rparr>"
  have 1: "py_in (str ''Deutschland'') h2"
    by (simp add: h2_def text_eval)
  have ne: "h1 \<noteq> str ''Start date''" "h1 \<noteq> str ''timestamp''" "h2 \<noteq> str ''Start date''"
    "h2 \<noteq> str ''timestamp''" "h1 \<noteq> h2" "str ''Start date'' \<noteq> str ''timestamp''"
    "str ''Deutschland/Luxemburg'' \<noteq> str ''Deutschland/Austria/Luxemburg''"
    "str ''Deutschland/Luxemburg'' \<noteq> h2"
    by (simp_all add: h1_def h2_def text_eval)
  have h: "clean_name h1 = str ''Deutschland/Luxemburg''" "\<not> date_like h1"
    "clean_name h2 = str ''Deutschland/Austria/Luxemburg''" "\<not> date_like h2"
    using clean_name_examples(4,5) date_like_examples(7,8) by (simp_all add: h1_def h2_def)
  have 2: "clean_frame (\<lambda>v. None) ?raw = Inr ?d"
    using ne by (simp add: frame_eval strptime_example date_like_examples h)
  have "process_prices (\<lambda>v. None) (\<lambda>p. Inr ?raw) [] =
        ([Print (str ''Processing '' @ prices_csv @ str ''...'')], Inr [?r])"
    by (simp add: process_prices_def clean_smard_df_def and_then_def 2)
       (simp add: rename_price_def text_eval)
  then show ?thesis using 1 unfolding h1_def h2_def by (simp add: prices_csv_def data_dir_def str_def)
qed

text \<open>
  A header with the euro sign in its unit annotation only, beside a second column: the
  annotation is cut off before the driver looks for the euro sign, and nothing is renamed.
\<close>

lemma euro_sign_in_annotation_example:
  "process_prices (\<lambda>v. None)
     (\<lambda>p. Inr \<lparr>columns = [str ''Start date'', str ''Price ['' @ euro_sign @ str ''/MWh]'', str ''Volume''],
               rows = [(PyInt 0, [PyStr (str ''Jan 1, 2021 12:00 AM''),
                                  PyFloat (Finite 50), PyFloat (Finite 10)])]\<rparr>) [] =
   ([Print (str ''Processing ../data/prices.csv...'')],
    Inr [\<lparr>columns = [str ''Price'', str ''Volume''],
          rows = [(PyTimestamp (Timestamp 2021 1 1 0 0),
                   [PyFloat (Finite 50), PyFloat (Finite 10)])]\<rparr>])"
proof -
  define h where "h = str ''Price ['' @ euro_sign @ str ''/MWh]''"
  let ?raw = "\<lparr>columns = [str ''Start date'', h, str ''Volume''],
               rows = [(PyInt 0, [PyStr (str ''Jan 1, 2021 12:00 AM''),
                                  PyFloat (Finite 50), PyFloat (Finite 10)])]\<rparr>"
  let ?d = "\<lparr>columns = [str ''Price'', str ''Volume''],
          rows = [(PyTimestamp (Timestamp 2021 1 1 0 0),
                   [PyFloat (Finite 50), PyFloat (Finite 10)])]\<rparr>"
  have ne: "h \<noteq> str ''Start date''" "h \<noteq> str ''timestamp''" "h \<noteq> str ''Volume''"
    "str ''Start date'' \<noteq> str ''timestamp''" "str ''Volume'' \<noteq> str ''timestamp''"
    "str ''Start date'' \<noteq> str ''Volume''" "str ''Price'' \<noteq> str ''Volume''"
    by (simp_all add: h_def text_eval)
  have h: "clean_name h = str ''Price''" "\<not> date_like h"
    using clean_name_examples(3) date_like_examples(6) by (simp_all add: h_def)
  have 2: "clean_frame (\<lambda>v. None) ?raw = Inr ?d"
    using ne by (simp add: frame_eval strptime_example date_like_examples clean_name_examples h)
  have "process_prices (\<lambda>v. None) (\<lambda>p. Inr ?raw) [] =
        ([Print (str ''Processing '' @ prices_csv @ str ''...'')], Inr [?d])"
    by (simp add: process_prices_def clean_smard_df_def and_then_def 2)
       (simp add: rename_price_def text_eval)
  then show ?thesis unfolding h_def by (simp add: prices_csv_def data_dir_def str_def)
qed

end
